theory Spec2Isabelle
  imports Complex_Main "HOL-Library.Word"
begin

unbundle bit_operations_syntax

section \<open>Shared Go-level types\<close>

text \<open>
  A Go \<^verbatim>\<open>[]byte\<close> is a list of 8-bit words; a Go \<^verbatim>\<open>string\<close> is a
  list of bytes written as a HOL \<open>string\<close>; a Go \<^verbatim>\<open>int\<close> is an \<open>int\<close>.
  A run-time panic is a value of \<open>go_panic\<close>: a function that can panic returns
  \<open>go_panic + 'a\<close> with \<open>Inl\<close> for the panic.
\<close>

type_synonym byte = "8 word"

datatype go_panic = SliceBoundsOutOfRange | NilPointerDereference

text \<open>
  An \<^verbatim>\<open>error\<close> value: \<^verbatim>\<open>fmt.Errorf("msg")\<close> is \<open>ErrorString\<close>,
  \<^verbatim>\<open>fmt.Errorf("prefix: %w", err)\<close> is \<open>WrapError\<close> with the wrapped cause.
  The \<^verbatim>\<open>nil\<close> error is \<open>None\<close> of \<open>go_error option\<close>.
\<close>

datatype go_error = ErrorString string | WrapError string go_error

fun Error :: "go_error \<Rightarrow> string" where
  "Error (ErrorString m) = m"
| "Error (WrapError p e) = p @ Error e"

fun Unwrap :: "go_error \<Rightarrow> go_error option" where
  "Unwrap (ErrorString m) = None"
| "Unwrap (WrapError p e) = Some e"

section \<open>Conversation session (types.go)\<close>

type_synonym Voice = string
type_synonym Language = string

definition VoiceF1 :: Voice where "VoiceF1 = ''F1''"
definition LanguageEn :: Language where "LanguageEn = ''en''"

record Message =
  Role :: string
  Content :: string

record Config =
  SampleRate :: int
  Channels :: int
  BytesPerSamp :: int
  MaxContextMessages :: int
  VoiceStyle :: Voice
  Language :: Language
  STTTimeout :: nat
  LLMTimeout :: nat
  TTSTimeout :: nat

definition DefaultConfig :: Config where
  "DefaultConfig =
     \<lparr>SampleRate = 16000, Channels = 1, BytesPerSamp = 2, MaxContextMessages = 20,
      VoiceStyle = VoiceF1, Language = LanguageEn,
      STTTimeout = 30, LLMTimeout = 60, TTSTimeout = 30\<rparr>"

record ConversationSession =
  ID :: string
  Context :: "Message list"
  LastUser :: string
  LastAssistant :: string
  MaxMessages :: int
  CurrentVoice :: Voice
  CurrentLanguage :: Language

definition NewConversationSession :: "string \<Rightarrow> ConversationSession" where
  "NewConversationSession userID =
     \<lparr>ID = userID, Context = [], LastUser = '''', LastAssistant = '''',
      MaxMessages = 20, CurrentVoice = VoiceF1, CurrentLanguage = LanguageEn\<rparr>"

text \<open>
  The slice expression \<^verbatim>\<open>s[low:]\<close>: Go panics unless \<open>0 \<le> low \<le> len(s)\<close>.
\<close>

definition slice_from :: "'a list \<Rightarrow> int \<Rightarrow> go_panic + 'a list" where
  "slice_from xs low =
     (if 0 \<le> low \<and> low \<le> int (length xs) then Inr (drop (nat low) xs)
      else Inl SliceBoundsOutOfRange)"

text \<open>
  \<^verbatim>\<open>AddMessage\<close>: append, trim from the front when the context is longer than
  \<open>MaxMessages\<close>, then update the last-turn caches. The index
  \<open>len(s.Context) - s.MaxMessages\<close> is computed on \<open>int\<close>: inside the guard
  \<open>len > MaxMessages\<close> a 64-bit subtraction can only wrap when \<open>MaxMessages\<close> is
  negative, and then both the wrapped and the exact index are out of range.
\<close>

definition AddMessage ::
  "ConversationSession \<Rightarrow> string \<Rightarrow> string \<Rightarrow> go_panic + ConversationSession" where
  "AddMessage s role content =
     (let ctx = Context s @ [\<lparr>Role = role, Content = content\<rparr>] in
      case (if int (length ctx) > MaxMessages s
            then slice_from ctx (int (length ctx) - MaxMessages s)
            else Inr ctx) of
        Inl p \<Rightarrow> Inl p
      | Inr ctx' \<Rightarrow>
          Inr (if role = ''user'' then s\<lparr>Context := ctx', LastUser := content\<rparr>
               else if role = ''assistant'' then s\<lparr>Context := ctx', LastAssistant := content\<rparr>
               else s\<lparr>Context := ctx'\<rparr>))"

definition ClearContext :: "ConversationSession \<Rightarrow> ConversationSession" where
  "ClearContext s = s\<lparr>Context := [], LastUser := '''', LastAssistant := ''''\<rparr>"

text \<open>A sequence of \<^verbatim>\<open>AddMessage(role, content)\<close> calls, stopping at a panic.\<close>

fun AddMessages ::
  "ConversationSession \<Rightarrow> (string \<times> string) list \<Rightarrow> go_panic + ConversationSession" where
  "AddMessages s [] = Inr s"
| "AddMessages s ((role, content) # ms) =
     (case AddMessage s role content of
        Inl p \<Rightarrow> Inl p
      | Inr s' \<Rightarrow> AddMessages s' ms)"

text \<open>The message a call appends, and the last \<open>n\<close> elements of a list.\<close>

definition msg_of :: "string \<times> string \<Rightarrow> Message" where
  "msg_of rc = \<lparr>Role = fst rc, Content = snd rc\<rparr>"

definition last_n :: "nat \<Rightarrow> 'a list \<Rightarrow> 'a list" where
  "last_n n xs = drop (length xs - n) xs"

section \<open>Pipeline controller (orchestrator.go)\<close>

subsection \<open>strings.TrimSpace\<close>

text \<open>
  \<^verbatim>\<open>strings.TrimSpace\<close> of the Go standard library removes all leading and trailing
  white space, as defined by Unicode, from a UTF-8 string. \<open>white_space_utf8\<close> lists the
  UTF-8 encodings of the runes with \<^verbatim>\<open>unicode.IsSpace\<close>: U+0009..U+000D, U+0020,
  U+0085, U+00A0, U+1680, U+2000..U+200A, U+2028, U+2029, U+202F, U+205F, U+3000. A
  byte that starts no such encoding decodes to a rune that is not white space (an
  invalid byte decodes to U+FFFD), so trimming stops there.
\<close>

definition white_space_utf8 :: "nat list list" where
  "white_space_utf8 =
     [[0x09], [0x0A], [0x0B], [0x0C], [0x0D], [0x20],
      [0xC2, 0x85], [0xC2, 0xA0],
      [0xE1, 0x9A, 0x80],
      [0xE2, 0x80, 0x80], [0xE2, 0x80, 0x81], [0xE2, 0x80, 0x82], [0xE2, 0x80, 0x83],
      [0xE2, 0x80, 0x84], [0xE2, 0x80, 0x85], [0xE2, 0x80, 0x86], [0xE2, 0x80, 0x87],
      [0xE2, 0x80, 0x88], [0xE2, 0x80, 0x89], [0xE2, 0x80, 0x8A],
      [0xE2, 0x80, 0xA8], [0xE2, 0x80, 0xA9], [0xE2, 0x80, 0xAF],
      [0xE2, 0x81, 0x9F],
      [0xE3, 0x80, 0x80]]"

definition match_width :: "nat list list \<Rightarrow> string \<Rightarrow> nat" where
  "match_width encs s =
     (case find (\<lambda>e. take (length e) (map of_char s) = e) encs of
        None \<Rightarrow> 0
      | Some e \<Rightarrow> length e)"

fun strip_leading :: "nat list list \<Rightarrow> string \<Rightarrow> string" where
  "strip_leading encs [] = []"
| "strip_leading encs (c # cs) =
     (let w = match_width encs (c # cs) in
      if w = 0 then c # cs else strip_leading encs (drop (w - 1) cs))"

definition TrimLeftSpace :: "string \<Rightarrow> string" where
  "TrimLeftSpace s = strip_leading white_space_utf8 s"

definition TrimRightSpace :: "string \<Rightarrow> string" where
  "TrimRightSpace s = rev (strip_leading (map rev white_space_utf8) (rev s))"

definition TrimSpace :: "string \<Rightarrow> string" where
  "TrimSpace s = TrimRightSpace (TrimLeftSpace s)"

text \<open>
  A string is blank when it is empty or only white space: read from the front, every
  rune of it is a white-space rune.
\<close>

fun only_white_space :: "string \<Rightarrow> bool" where
  "only_white_space [] = True"
| "only_white_space (c # cs) =
     (let w = match_width white_space_utf8 (c # cs) in
      w \<noteq> 0 \<and> only_white_space (drop (w - 1) cs))"

subsection \<open>Providers\<close>

text \<open>
  The three collaborators, as the methods the controller calls. A Go method returning
  \<^verbatim>\<open>(value, error)\<close> returns a pair whose second component is \<open>None\<close> for
  \<^verbatim>\<open>nil\<close>; a \<^verbatim>\<open>nil\<close> byte slice is the empty list. The
  \<^verbatim>\<open>context.Context\<close> argument is only handed on and is left out, as are
  \<^verbatim>\<open>Name()\<close> and the \<^verbatim>\<open>log.Printf\<close> lines. Within one pipeline call every
  collaborator is called at most once, so a function of the arguments covers every
  collaborator, stateful or not.
\<close>

record STTProvider =
  stt_Transcribe :: "byte list \<Rightarrow> string \<times> go_error option"

record LLMProvider =
  llm_Complete :: "Message list \<Rightarrow> string \<times> go_error option"

record TTSProvider =
  tts_Synthesize :: "string \<Rightarrow> Voice \<Rightarrow> byte list \<times> go_error option"
  tts_StreamSynthesize ::
    "string \<Rightarrow> Voice \<Rightarrow> (byte list \<Rightarrow> go_error option) \<Rightarrow> go_error option"

record Orchestrator =
  stt :: STTProvider
  llm :: LLMProvider
  tts :: TTSProvider
  config :: Config

definition New :: "STTProvider \<Rightarrow> LLMProvider \<Rightarrow> TTSProvider \<Rightarrow> Config \<Rightarrow> Orchestrator" where
  "New s l t c = \<lparr>stt = s, llm = l, tts = t, config = c\<rparr>"

text \<open>The mock providers of the test file.\<close>

definition MockSTTProvider :: "string \<Rightarrow> go_error option \<Rightarrow> STTProvider" where
  "MockSTTProvider transcribeResult transcribeErr =
     \<lparr>stt_Transcribe = (\<lambda>audio. (transcribeResult, transcribeErr))\<rparr>"

definition MockLLMProvider :: "string \<Rightarrow> go_error option \<Rightarrow> LLMProvider" where
  "MockLLMProvider completeResult completeErr =
     \<lparr>llm_Complete = (\<lambda>messages. (completeResult, completeErr))\<rparr>"

definition MockTTSProvider ::
  "byte list \<Rightarrow> go_error option \<Rightarrow> go_error option \<Rightarrow> TTSProvider" where
  "MockTTSProvider synthesizeResult synthesizeErr streamErr =
     \<lparr>tts_Synthesize = (\<lambda>text voice. (synthesizeResult, synthesizeErr)),
      tts_StreamSynthesize = (\<lambda>text voice onChunk.
         case streamErr of Some e \<Rightarrow> Some e | None \<Rightarrow> onChunk synthesizeResult)\<rparr>"

subsection \<open>Pipeline\<close>

text \<open>
  Every call the pipeline makes on a collaborator or on the session is recorded, in order
  and with its arguments, in a list of \<open>call\<close>s returned beside the results.
\<close>

datatype call =
    SttTranscribe "byte list"
  | LlmComplete "Message list"
  | TtsSynthesize string Voice
  | TtsStreamSynthesize string Voice
  | SessionAddMessage string string

definition Transcribe ::
  "Orchestrator \<Rightarrow> byte list \<Rightarrow> (string \<times> go_error option) \<times> call list" where
  "Transcribe orch audioData =
     (stt_Transcribe (stt orch) audioData, [SttTranscribe audioData])"

definition GenerateResponse ::
  "Orchestrator \<Rightarrow> ConversationSession \<Rightarrow> (string \<times> go_error option) \<times> call list" where
  "GenerateResponse orch session =
     (llm_Complete (llm orch) (Context session), [LlmComplete (Context session)])"

definition Synthesize ::
  "Orchestrator \<Rightarrow> string \<Rightarrow> Voice \<Rightarrow> (byte list \<times> go_error option) \<times> call list" where
  "Synthesize orch text voice =
     (tts_Synthesize (tts orch) text voice, [TtsSynthesize text voice])"

definition SynthesizeStream ::
  "Orchestrator \<Rightarrow> string \<Rightarrow> Voice \<Rightarrow> (byte list \<Rightarrow> go_error option)
     \<Rightarrow> go_error option \<times> call list" where
  "SynthesizeStream orch text voice onChunk =
     (tts_StreamSynthesize (tts orch) text voice onChunk, [TtsStreamSynthesize text voice])"

text \<open>
  \<^verbatim>\<open>ProcessAudio\<close> returns \<^verbatim>\<open>(transcript, audio, err)\<close>; the model returns
  them with the session as the call left it and the calls made, or the panic of
  \<^verbatim>\<open>AddMessage\<close>.
\<close>

definition ProcessAudio ::
  "Orchestrator \<Rightarrow> ConversationSession \<Rightarrow> byte list
     \<Rightarrow> go_panic + ((string \<times> byte list \<times> go_error option) \<times> ConversationSession \<times> call list)" where
  "ProcessAudio orch session audioData =
     (case Transcribe orch audioData of ((transcript, err), c1) \<Rightarrow>
      (case err of
         Some e \<Rightarrow> Inr (('''', [], Some (WrapError ''transcription failed: '' e)), session, c1)
       | None \<Rightarrow>
         if TrimSpace transcript = ''''
         then Inr (('''', [], Some (ErrorString ''empty transcription'')), session, c1)
         else
          (case AddMessage session ''user'' transcript of
             Inl p \<Rightarrow> Inl p
           | Inr session1 \<Rightarrow>
             (case GenerateResponse orch session1 of ((response, err), c2) \<Rightarrow>
              (let cs2 = c1 @ [SessionAddMessage ''user'' transcript] @ c2 in
               case err of
                 Some e \<Rightarrow> Inr ((transcript, [], Some (WrapError ''LLM failed: '' e)), session1, cs2)
               | None \<Rightarrow>
                  (case AddMessage session1 ''assistant'' response of
                     Inl p \<Rightarrow> Inl p
                   | Inr session2 \<Rightarrow>
                     (case Synthesize orch response (CurrentVoice session2) of
                        ((audioBytes, err), c3) \<Rightarrow>
                      (let cs3 = cs2 @ [SessionAddMessage ''assistant'' response] @ c3 in
                       case err of
                         Some e \<Rightarrow>
                           Inr ((transcript, [], Some (WrapError ''TTS failed: '' e)), session2, cs3)
                       | None \<Rightarrow> Inr ((transcript, audioBytes, None), session2, cs3)))))))))"

definition ProcessAudioStream ::
  "Orchestrator \<Rightarrow> ConversationSession \<Rightarrow> byte list \<Rightarrow> (byte list \<Rightarrow> go_error option)
     \<Rightarrow> go_panic + ((string \<times> go_error option) \<times> ConversationSession \<times> call list)" where
  "ProcessAudioStream orch session audioData onAudioChunk =
     (case Transcribe orch audioData of ((transcript, err), c1) \<Rightarrow>
      (case err of
         Some e \<Rightarrow> Inr (('''', Some (WrapError ''transcription failed: '' e)), session, c1)
       | None \<Rightarrow>
         if TrimSpace transcript = ''''
         then Inr (('''', Some (ErrorString ''empty transcription'')), session, c1)
         else
          (case AddMessage session ''user'' transcript of
             Inl p \<Rightarrow> Inl p
           | Inr session1 \<Rightarrow>
             (case GenerateResponse orch session1 of ((response, err), c2) \<Rightarrow>
              (let cs2 = c1 @ [SessionAddMessage ''user'' transcript] @ c2 in
               case err of
                 Some e \<Rightarrow> Inr ((transcript, Some (WrapError ''LLM failed: '' e)), session1, cs2)
               | None \<Rightarrow>
                  (case AddMessage session1 ''assistant'' response of
                     Inl p \<Rightarrow> Inl p
                   | Inr session2 \<Rightarrow>
                     (case SynthesizeStream orch response (CurrentVoice session2) onAudioChunk of
                        (err, c3) \<Rightarrow>
                      (let cs3 = cs2 @ [SessionAddMessage ''assistant'' response] @ c3 in
                       case err of
                         Some e \<Rightarrow>
                           Inr ((transcript, Some (WrapError ''TTS stream failed: '' e)), session2, cs3)
                       | None \<Rightarrow> Inr ((transcript, None), session2, cs3)))))))))"

definition NewSessionWithDefaults :: "Orchestrator \<Rightarrow> string \<Rightarrow> ConversationSession" where
  "NewSessionWithDefaults orch userID =
     (NewConversationSession userID)
       \<lparr>MaxMessages := MaxContextMessages (config orch),
        CurrentVoice := VoiceStyle (config orch),
        CurrentLanguage := Language (config orch)\<rparr>"

text \<open>The session and the calls of a finished pipeline call.\<close>

definition session_of ::
  "go_panic + ('r \<times> ConversationSession \<times> call list) \<Rightarrow> ConversationSession option" where
  "session_of res = (case res of Inl p \<Rightarrow> None | Inr (r, s, cs) \<Rightarrow> Some s)"

definition calls_of ::
  "go_panic + ('r \<times> ConversationSession \<times> call list) \<Rightarrow> call list option" where
  "calls_of res = (case res of Inl p \<Rightarrow> None | Inr (r, s, cs) \<Rightarrow> Some cs)"

text \<open>The session after a user turn and after an assistant turn, within the window.\<close>

definition user_turn :: "ConversationSession \<Rightarrow> string \<Rightarrow> ConversationSession" where
  "user_turn s t =
     s\<lparr>Context := last_n (nat (MaxMessages s)) (Context s @ [\<lparr>Role = ''user'', Content = t\<rparr>]),
       LastUser := t\<rparr>"

definition assistant_turn :: "ConversationSession \<Rightarrow> string \<Rightarrow> ConversationSession" where
  "assistant_turn s r =
     s\<lparr>Context := last_n (nat (MaxMessages s)) (Context s @ [\<lparr>Role = ''assistant'', Content = r\<rparr>]),
       LastAssistant := r\<rparr>"

section \<open>Voice activity detector (pkg/orchestrator/vad.go)\<close>

subsection \<open>float64 and time\<close>

text \<open>
  A \<^verbatim>\<open>float64\<close> is a NaN, an infinity or a finite value, the latter given by the real
  number it denotes (the two zeros are one value). Comparisons are exact and false on
  NaN. Every arithmetic operation on finite operands computes the exact real result and
  hands it to a rounding function \<open>rnd\<close>, a parameter of the model that may return any
  \<^verbatim>\<open>float64\<close> (a rounded value, or an infinity on overflow): what is proved holds for every
  \<open>rnd\<close>, IEEE 754 round-to-nearest among them. Decimal literals stand for the reals they
  are written as.
\<close>

datatype float64 = NaN | NInf | Fin real | PInf

fun f_lt :: "float64 \<Rightarrow> float64 \<Rightarrow> bool" where
  "f_lt (Fin a) (Fin b) = (a < b)"
| "f_lt NaN y = False"
| "f_lt x NaN = False"
| "f_lt x NInf = False"
| "f_lt NInf y = True"
| "f_lt PInf y = False"
| "f_lt x PInf = True"

definition f_gt :: "float64 \<Rightarrow> float64 \<Rightarrow> bool" where
  "f_gt x y = f_lt y x"

definition inf_of_sign :: "real \<Rightarrow> float64" where
  "inf_of_sign a = (if a = 0 then NaN else if 0 < a then PInf else NInf)"

fun f_neg :: "float64 \<Rightarrow> float64" where
  "f_neg NaN = NaN"
| "f_neg NInf = PInf"
| "f_neg (Fin a) = Fin (- a)"
| "f_neg PInf = NInf"

fun f_add :: "(real \<Rightarrow> float64) \<Rightarrow> float64 \<Rightarrow> float64 \<Rightarrow> float64" where
  "f_add rnd (Fin a) (Fin b) = rnd (a + b)"
| "f_add rnd NaN y = NaN"
| "f_add rnd x NaN = NaN"
| "f_add rnd PInf NInf = NaN"
| "f_add rnd NInf PInf = NaN"
| "f_add rnd PInf y = PInf"
| "f_add rnd NInf y = NInf"
| "f_add rnd x PInf = PInf"
| "f_add rnd x NInf = NInf"

definition f_sub :: "(real \<Rightarrow> float64) \<Rightarrow> float64 \<Rightarrow> float64 \<Rightarrow> float64" where
  "f_sub rnd x y = f_add rnd x (f_neg y)"

fun f_mul :: "(real \<Rightarrow> float64) \<Rightarrow> float64 \<Rightarrow> float64 \<Rightarrow> float64" where
  "f_mul rnd (Fin a) (Fin b) = rnd (a * b)"
| "f_mul rnd NaN y = NaN"
| "f_mul rnd x NaN = NaN"
| "f_mul rnd PInf PInf = PInf"
| "f_mul rnd NInf NInf = PInf"
| "f_mul rnd PInf NInf = NInf"
| "f_mul rnd NInf PInf = NInf"
| "f_mul rnd (Fin a) PInf = inf_of_sign a"
| "f_mul rnd PInf (Fin b) = inf_of_sign b"
| "f_mul rnd (Fin a) NInf = inf_of_sign (- a)"
| "f_mul rnd NInf (Fin b) = inf_of_sign (- b)"

text \<open>Division; a zero divisor is taken as \<open>+0\<close>, which is what a converted count is.\<close>

fun f_div :: "(real \<Rightarrow> float64) \<Rightarrow> float64 \<Rightarrow> float64 \<Rightarrow> float64" where
  "f_div rnd (Fin a) (Fin b) = (if b = 0 then inf_of_sign a else rnd (a / b))"
| "f_div rnd NaN y = NaN"
| "f_div rnd x NaN = NaN"
| "f_div rnd (Fin a) y = Fin 0"
| "f_div rnd PInf (Fin b) = (if 0 \<le> b then PInf else NInf)"
| "f_div rnd NInf (Fin b) = (if 0 \<le> b then NInf else PInf)"
| "f_div rnd x y = NaN"

fun f_sqrt :: "(real \<Rightarrow> float64) \<Rightarrow> float64 \<Rightarrow> float64" where
  "f_sqrt rnd (Fin a) = (if a < 0 then NaN else rnd (sqrt a))"
| "f_sqrt rnd PInf = PInf"
| "f_sqrt rnd x = NaN"

text \<open>
  A \<^verbatim>\<open>time.Time\<close> is the number of nanoseconds since the zero time (January 1, year 1,
  UTC), a \<^verbatim>\<open>time.Duration\<close> a number of nanoseconds. \<^verbatim>\<open>time.Now()\<close> is an
  argument of \<open>Process\<close>.
\<close>

type_synonym Time = int
type_synonym Duration = int

definition zero_Time :: Time where
  "zero_Time = 0"

definition IsZero :: "Time \<Rightarrow> bool" where
  "IsZero t = (t = zero_Time)"

definition Sub :: "Time \<Rightarrow> Time \<Rightarrow> Duration" where
  "Sub t u = t - u"

definition UnixMilli :: "Time \<Rightarrow> int" where
  "UnixMilli t = (t - 62135596800 * 1000000000) div 1000000"

subsection \<open>The detector\<close>

text \<open>
  Modelled from the spec: the declarations of \<^verbatim>\<open>VADEvent\<close> and of its event types are
  not among the sources; the spec gives
  \<^verbatim>\<open>{type: one of {SpeechStart, SpeechEnd, Silence}, timestamp: epoch-millis}\<close>.
\<close>

datatype VADEventType = VADSpeechStart | VADSpeechEnd | VADSilence

record VADEvent =
  Type :: VADEventType
  Timestamp :: int

record RMSVAD =
  threshold :: float64
  silenceLimit :: Duration
  isSpeaking :: bool
  silenceStart :: Time
  adaptiveMode :: bool
  noiseFloor :: float64
  alpha :: float64
  consecutiveFrames :: int
  minConfirmed :: int
  lastRMS :: float64

definition NewRMSVAD :: "float64 \<Rightarrow> Duration \<Rightarrow> RMSVAD" where
  "NewRMSVAD thr limit =
     \<lparr>threshold = thr, silenceLimit = limit, isSpeaking = False, silenceStart = zero_Time,
      adaptiveMode = True, noiseFloor = Fin (5 / 1000), alpha = Fin (5 / 100),
      consecutiveFrames = 0, minConfirmed = 7, lastRMS = Fin 0\<rparr>"

definition SetAdaptiveMode :: "RMSVAD \<Rightarrow> bool \<Rightarrow> RMSVAD" where
  "SetAdaptiveMode v enabled = v\<lparr>adaptiveMode := enabled\<rparr>"

definition SetMinConfirmed :: "RMSVAD \<Rightarrow> int \<Rightarrow> RMSVAD" where
  "SetMinConfirmed v count = v\<lparr>minConfirmed := count\<rparr>"

definition SetThreshold :: "RMSVAD \<Rightarrow> float64 \<Rightarrow> RMSVAD" where
  "SetThreshold v thr = v\<lparr>threshold := thr\<rparr>"

definition Threshold :: "RMSVAD \<Rightarrow> float64" where
  "Threshold v = threshold v"

definition LastRMS :: "RMSVAD \<Rightarrow> float64" where
  "LastRMS v = lastRMS v"

definition IsSpeaking :: "RMSVAD \<Rightarrow> bool" where
  "IsSpeaking v = isSpeaking v"

text \<open>
  The sample loop of \<^verbatim>\<open>calculateRMS\<close>: \<open>i\<close> runs over \<open>0, 2, 4, \<dots>\<close> while
  \<open>i < len(chunk) - 1\<close>; a sample is the little-endian signed 16-bit word of two bytes.
\<close>

function rms_loop :: "(real \<Rightarrow> float64) \<Rightarrow> byte list \<Rightarrow> nat \<Rightarrow> float64 \<Rightarrow> float64" where
  "rms_loop rnd chunk i acc =
     (if int i < int (length chunk) - 1
      then
        (let sample = (ucast (chunk ! i) :: 16 word) OR push_bit 8 (ucast (chunk ! (i + 1)) :: 16 word);
             f = f_div rnd (Fin (real_of_int (sint sample))) (Fin 32768)
         in rms_loop rnd chunk (i + 2) (f_add rnd acc (f_mul rnd f f)))
      else acc)"
  by pat_completeness auto
termination
  by (relation "measure (\<lambda>(rnd, chunk, i, acc). length chunk - i)") auto

definition calculateRMS :: "(real \<Rightarrow> float64) \<Rightarrow> byte list \<Rightarrow> float64" where
  "calculateRMS rnd chunk =
     (if length chunk = 0 then Fin 0
      else f_sqrt rnd (f_div rnd (rms_loop rnd chunk 0 (Fin 0))
                                 (Fin (real (length chunk div 2)))))"

text \<open>
  The adaptive block of \<^verbatim>\<open>Process\<close>: the detector with its noise floor updated, and
  the effective threshold the frame is compared with.
\<close>

definition effectiveThreshold :: "(real \<Rightarrow> float64) \<Rightarrow> RMSVAD \<Rightarrow> float64 \<Rightarrow> RMSVAD \<times> float64" where
  "effectiveThreshold rnd v rms =
     (if adaptiveMode v
      then
        (let v1 = (if f_lt rms (noiseFloor v) then v\<lparr>noiseFloor := rms\<rparr>
                   else if \<not> isSpeaking v \<and> f_lt rms (f_mul rnd (threshold v) (Fin 2))
                   then v\<lparr>noiseFloor :=
                           f_add rnd (f_mul rnd (f_sub rnd (Fin 1) (alpha v)) (noiseFloor v))
                                     (f_mul rnd (alpha v) rms)\<rparr>
                   else v);
             adaptiveThreshold = f_mul rnd (noiseFloor v1) (Fin 2);
             e1 = (if f_gt adaptiveThreshold (threshold v1) then adaptiveThreshold
                   else threshold v1);
             e2 = (if f_gt e1 (Fin (3 / 10)) then Fin (3 / 10) else e1)
         in (v1, e2))
      else (v, threshold v))"

text \<open>
  \<^verbatim>\<open>Process\<close> returns \<^verbatim>\<open>(*VADEvent, error)\<close>, here a pair of options, and the
  detector as the call left it. The frame counter is an unbounded \<open>int\<close>.
\<close>

definition Process ::
  "(real \<Rightarrow> float64) \<Rightarrow> RMSVAD \<Rightarrow> byte list \<Rightarrow> Time
     \<Rightarrow> (VADEvent option \<times> go_error option) \<times> RMSVAD" where
  "Process rnd v chunk now =
     (let rms = calculateRMS rnd chunk;
          v0 = v\<lparr>lastRMS := rms\<rparr>;
          (v1, eff) = effectiveThreshold rnd v0 rms
      in
        if f_gt rms eff
        then
          (let v2 = v1\<lparr>consecutiveFrames := consecutiveFrames v1 + 1\<rparr> in
           if \<not> isSpeaking v2
           then
             (if consecutiveFrames v2 \<ge> minConfirmed v2
              then ((Some \<lparr>Type = VADSpeechStart, Timestamp = UnixMilli now\<rparr>, None),
                    v2\<lparr>isSpeaking := True\<rparr>)
              else ((None, None), v2))
           else ((None, None), v2\<lparr>silenceStart := zero_Time\<rparr>))
        else
          (let v2 = v1\<lparr>consecutiveFrames := 0\<rparr> in
           if isSpeaking v2
           then
             (let v3 = (if IsZero (silenceStart v2) then v2\<lparr>silenceStart := now\<rparr> else v2) in
              if Sub now (silenceStart v3) \<ge> silenceLimit v3
              then ((Some \<lparr>Type = VADSpeechEnd, Timestamp = UnixMilli now\<rparr>, None),
                    v3\<lparr>isSpeaking := False, silenceStart := zero_Time\<rparr>)
              else ((Some \<lparr>Type = VADSilence, Timestamp = UnixMilli now\<rparr>, None), v3))
           else ((Some \<lparr>Type = VADSilence, Timestamp = UnixMilli now\<rparr>, None), v2)))"

definition Name :: "RMSVAD \<Rightarrow> string" where
  "Name v = ''rms_vad''"

definition Reset :: "RMSVAD \<Rightarrow> RMSVAD" where
  "Reset v = v\<lparr>isSpeaking := False, silenceStart := zero_Time, consecutiveFrames := 0\<rparr>"

text \<open>\<^verbatim>\<open>Clone\<close> builds a new struct; the fields it does not name have their zero values.\<close>

definition Clone :: "RMSVAD \<Rightarrow> RMSVAD" where
  "Clone v =
     \<lparr>threshold = threshold v, silenceLimit = silenceLimit v, isSpeaking = False,
      silenceStart = zero_Time, adaptiveMode = False, noiseFloor = Fin 0, alpha = Fin 0,
      consecutiveFrames = 0, minConfirmed = minConfirmed v, lastRMS = Fin 0\<rparr>"

subsection \<open>Detectors behind pointers\<close>

text \<open>
  The methods have pointer receivers and \<^verbatim>\<open>Clone\<close> returns a pointer to a newly
  allocated struct. A store is the list of the allocated detectors, a pointer an index
  into it; allocation appends. A method called through a pointer replaces the detector
  at that index; a pointer outside the store is a nil dereference.
\<close>

type_synonym vad_store = "RMSVAD list"

definition Clone_ptr :: "vad_store \<Rightarrow> nat \<Rightarrow> go_panic + (vad_store \<times> nat)" where
  "Clone_ptr st p =
     (if p < length st then Inr (st @ [Clone (st ! p)], length st)
      else Inl NilPointerDereference)"

definition call_ptr :: "vad_store \<Rightarrow> nat \<Rightarrow> (RMSVAD \<Rightarrow> RMSVAD) \<Rightarrow> go_panic + vad_store" where
  "call_ptr st p method =
     (if p < length st then Inr (st[p := method (st ! p)])
      else Inl NilPointerDereference)"

subsection \<open>Runs of frames\<close>

text \<open>
  A run of \<^verbatim>\<open>Process\<close> calls over frames with their clock readings, collecting the
  event of every call; whether a frame's energy exceeds the effective threshold in a
  state; and a property of every frame of a run, each taken in the state it is
  processed in.
\<close>

fun ProcessFrames ::
  "(real \<Rightarrow> float64) \<Rightarrow> RMSVAD \<Rightarrow> (byte list \<times> Time) list \<Rightarrow> VADEvent option list \<times> RMSVAD" where
  "ProcessFrames rnd v [] = ([], v)"
| "ProcessFrames rnd v ((chunk, now) # frames) =
     (case Process rnd v chunk now of
        ((ev, err), v') \<Rightarrow>
          (case ProcessFrames rnd v' frames of (evs, v'') \<Rightarrow> (ev # evs, v'')))"

definition exceeds :: "(real \<Rightarrow> float64) \<Rightarrow> RMSVAD \<Rightarrow> byte list \<Rightarrow> bool" where
  "exceeds rnd v chunk =
     (let rms = calculateRMS rnd chunk
      in f_gt rms (snd (effectiveThreshold rnd (v\<lparr>lastRMS := rms\<rparr>) rms)))"

fun every_frame ::
  "(RMSVAD \<Rightarrow> byte list \<Rightarrow> bool) \<Rightarrow> (real \<Rightarrow> float64) \<Rightarrow> RMSVAD \<Rightarrow> (byte list \<times> Time) list \<Rightarrow> bool" where
  "every_frame P rnd v [] = True"
| "every_frame P rnd v ((chunk, now) # frames) =
     (P v chunk \<and> every_frame P rnd (snd (Process rnd v chunk now)) frames)"

section \<open>Properties of the session\<close>

lemma last_n_length: "length (last_n n xs) = min n (length xs)"
  by (simp add: last_n_def)

lemma last_n_append: "last_n n (last_n n xs @ ys) = last_n n (xs @ ys)"
  by (cases "n \<le> length xs") (simp_all add: last_n_def add.commute)

lemma slice_from_last_n:
  assumes "0 \<le> m" and "m < int (length xs)"
  shows "slice_from xs (int (length xs) - m) = Inr (last_n (nat m) xs)"
proof -
  from assms have "nat (int (length xs) - m) = length xs - nat m"
    by linarith
  with assms show ?thesis
    by (simp add: slice_from_def last_n_def)
qed

lemma last_n_all: "length xs \<le> n \<Longrightarrow> last_n n xs = xs"
  by (simp add: last_n_def)

lemma AddMessage_window:
  assumes "0 \<le> MaxMessages s"
  shows "\<exists>s'. AddMessage s role content = Inr s' \<and> MaxMessages s' = MaxMessages s \<and>
           Context s' = last_n (nat (MaxMessages s)) (Context s @ [\<lparr>Role = role, Content = content\<rparr>])"
proof -
  let ?ctx = "Context s @ [\<lparr>Role = role, Content = content\<rparr>]"
  have trim: "(if int (length ?ctx) > MaxMessages s
               then slice_from ?ctx (int (length ?ctx) - MaxMessages s)
               else Inr ?ctx) = Inr (last_n (nat (MaxMessages s)) ?ctx)"
  proof (cases "int (length ?ctx) > MaxMessages s")
    case True
    with slice_from_last_n [OF assms, of ?ctx] show ?thesis
      by presburger
  next
    case False
    then have "length ?ctx \<le> nat (MaxMessages s)"
      by linarith
    with False last_n_all [of ?ctx "nat (MaxMessages s)"] show ?thesis
      by presburger
  qed
  show ?thesis
    unfolding AddMessage_def Let_def trim by simp
qed

lemma AddMessages_window:
  assumes "0 \<le> MaxMessages s"
  shows "\<exists>s'. AddMessages s ms = Inr s' \<and> MaxMessages s' = MaxMessages s \<and>
           Context s' = (if ms = [] then Context s
                         else last_n (nat (MaxMessages s)) (Context s @ map msg_of ms))"
  using assms
proof (induction ms arbitrary: s)
  case Nil
  then show ?case by simp
next
  case (Cons rc ms)
  obtain role content where rc: "rc = (role, content)"
    by (cases rc)
  from AddMessage_window [OF Cons.prems, of role content]
  obtain s1 where s1: "AddMessage s role content = Inr s1"
      "MaxMessages s1 = MaxMessages s"
      "Context s1 = last_n (nat (MaxMessages s)) (Context s @ [\<lparr>Role = role, Content = content\<rparr>])"
    by blast
  from Cons.prems s1(2) have "0 \<le> MaxMessages s1"
    by simp
  from Cons.IH [OF this]
  obtain s2 where s2: "AddMessages s1 ms = Inr s2" "MaxMessages s2 = MaxMessages s1"
      "Context s2 = (if ms = [] then Context s1
                     else last_n (nat (MaxMessages s1)) (Context s1 @ map msg_of ms))"
    by blast
  have "Context s2 = last_n (nat (MaxMessages s)) (Context s @ map msg_of (rc # ms))"
  proof (cases "ms = []")
    case True
    with s2(3) s1(3) rc show ?thesis
      by (simp add: msg_of_def)
  next
    case False
    with s2(3) s1(2,3) rc show ?thesis
      by (simp add: msg_of_def last_n_append)
  qed
  with s1 s2 rc show ?case
    by simp
qed

text \<open>
  C1. For a session with \<open>MaxMessages \<ge> 0\<close>, any sequence of \<^verbatim>\<open>AddMessage\<close>
  calls returns without a panic and leaves \<open>MaxMessages\<close> as it was. The context is
  then the last \<open>MaxMessages\<close> entries of the old context followed by the appended
  messages; its length is at most \<open>MaxMessages\<close> (after at least one call, or when it
  was so before); and for a session that started with an empty context the retained
  messages are exactly the most recently appended \<open>min (total appended) MaxMessages\<close>
  messages, in append order.
\<close>

theorem C1_AddMessages_sliding_window:
  assumes "0 \<le> MaxMessages s"
  shows "\<exists>s'. AddMessages s ms = Inr s' \<and> MaxMessages s' = MaxMessages s \<and>
           Context s' = (if ms = [] then Context s
                         else last_n (nat (MaxMessages s)) (Context s @ map msg_of ms)) \<and>
           (ms \<noteq> [] \<or> length (Context s) \<le> nat (MaxMessages s)
              \<longrightarrow> length (Context s') \<le> nat (MaxMessages s)) \<and>
           (Context s = [] \<longrightarrow>
              length (Context s') = min (length ms) (nat (MaxMessages s)) \<and>
              Context s' = drop (length ms - min (length ms) (nat (MaxMessages s))) (map msg_of ms))"
proof -
  from AddMessages_window [OF assms, of ms]
  obtain s' where s': "AddMessages s ms = Inr s'" "MaxMessages s' = MaxMessages s"
      "Context s' = (if ms = [] then Context s
                     else last_n (nat (MaxMessages s)) (Context s @ map msg_of ms))"
    by blast
  have bound: "ms \<noteq> [] \<or> length (Context s) \<le> nat (MaxMessages s)
      \<longrightarrow> length (Context s') \<le> nat (MaxMessages s)"
    using s'(3) by (auto simp: last_n_length)
  have fresh: "Context s = [] \<longrightarrow>
      length (Context s') = min (length ms) (nat (MaxMessages s)) \<and>
      Context s' = drop (length ms - min (length ms) (nat (MaxMessages s))) (map msg_of ms)"
    using s'(3) by (cases "ms = []") (auto simp: last_n_def min_def)
  from s' bound fresh show ?thesis
    by blast
qed

text \<open>
  The guard \<open>MaxMessages \<ge> 0\<close> is needed: with a negative \<open>MaxMessages\<close> the trim index
  lies beyond the end of the slice and the call panics.
\<close>

lemma AddMessage_negative_panics:
  assumes "MaxMessages s < 0"
  shows "AddMessage s role content = Inl SliceBoundsOutOfRange"
  using assms by (simp add: AddMessage_def slice_from_def Let_def)

theorem C1_AddMessages_sliding_window_witness:
  "0 \<le> MaxMessages ((NewConversationSession ''u'')\<lparr>MaxMessages := 2\<rparr>) \<and>
   Context ((NewConversationSession ''u'')\<lparr>MaxMessages := 2\<rparr>) = [] \<and>
   (\<exists>s'. AddMessages ((NewConversationSession ''u'')\<lparr>MaxMessages := 2\<rparr>)
            [(''user'', ''a''), (''assistant'', ''b''), (''user'', ''c'')] = Inr s' \<and>
         length (Context s') = 2 \<and>
         Context s' = [\<lparr>Role = ''assistant'', Content = ''b''\<rparr>, \<lparr>Role = ''user'', Content = ''c''\<rparr>])"
proof -
  let ?s = "(NewConversationSession ''u'')\<lparr>MaxMessages := 2\<rparr>"
  let ?ms = "[(''user'', ''a''), (''assistant'', ''b''), (''user'', ''c'')]"
  have nonneg: "0 \<le> MaxMessages ?s"
    by simp
  have empty: "Context ?s = []"
    by (simp add: NewConversationSession_def)
  from C1_AddMessages_sliding_window [OF nonneg, of ?ms] empty
  obtain s' where s': "AddMessages ?s ?ms = Inr s'"
      "length (Context s') = min (length ?ms) (nat (MaxMessages ?s))"
      "Context s' = drop (length ?ms - min (length ?ms) (nat (MaxMessages ?s))) (map msg_of ?ms)"
    by blast
  from s'(2) have len: "length (Context s') = 2"
    by simp
  from s'(3) have ctx: "Context s' = [\<lparr>Role = ''assistant'', Content = ''b''\<rparr>, \<lparr>Role = ''user'', Content = ''c''\<rparr>]"
    by (simp add: msg_of_def)
  from nonneg empty s'(1) len ctx show ?thesis
    by blast
qed

text \<open>
  C10. For a session with \<open>MaxMessages \<ge> 0\<close>, \<^verbatim>\<open>AddMessage\<close> returns for every role
  and content: whenever the trim runs, its index \<open>len - MaxMessages\<close> lies within
  \<open>0 .. len\<close> of the appended context, so the slice expression does not panic. A
  role other than \<open>user\<close> and \<open>assistant\<close> is appended like any other (and trimmed
  by the same window); the session is otherwise unchanged, so both last-turn caches
  keep their values, and with \<open>MaxMessages \<ge> 1\<close> the new message is the last entry.
\<close>

theorem C10_AddMessage_total:
  assumes "0 \<le> MaxMessages s"
  shows "(\<exists>s'. AddMessage s role content = Inr s') \<and>
         (MaxMessages s < int (length (Context s @ [\<lparr>Role = role, Content = content\<rparr>])) \<longrightarrow>
            0 \<le> int (length (Context s @ [\<lparr>Role = role, Content = content\<rparr>])) - MaxMessages s \<and>
            int (length (Context s @ [\<lparr>Role = role, Content = content\<rparr>])) - MaxMessages s
              \<le> int (length (Context s @ [\<lparr>Role = role, Content = content\<rparr>])) \<and>
            slice_from (Context s @ [\<lparr>Role = role, Content = content\<rparr>])
              (int (length (Context s @ [\<lparr>Role = role, Content = content\<rparr>])) - MaxMessages s)
              \<noteq> Inl SliceBoundsOutOfRange) \<and>
         (role \<noteq> ''user'' \<and> role \<noteq> ''assistant'' \<longrightarrow>
            AddMessage s role content =
              Inr (s\<lparr>Context := last_n (nat (MaxMessages s))
                                  (Context s @ [\<lparr>Role = role, Content = content\<rparr>])\<rparr>) \<and>
            (\<forall>s'. AddMessage s role content = Inr s' \<longrightarrow>
               LastUser s' = LastUser s \<and> LastAssistant s' = LastAssistant s \<and>
               (1 \<le> MaxMessages s \<longrightarrow>
                  Context s' \<noteq> [] \<and> last (Context s') = \<lparr>Role = role, Content = content\<rparr>)))"
proof -
  let ?ctx = "Context s @ [\<lparr>Role = role, Content = content\<rparr>]"
  from AddMessage_window [OF assms, of role content]
  obtain s1 where s1: "AddMessage s role content = Inr s1"
      "Context s1 = last_n (nat (MaxMessages s)) ?ctx"
    by blast
  have total: "\<exists>s'. AddMessage s role content = Inr s'"
    using s1(1) by blast
  have index: "MaxMessages s < int (length ?ctx) \<longrightarrow>
      0 \<le> int (length ?ctx) - MaxMessages s \<and>
      int (length ?ctx) - MaxMessages s \<le> int (length ?ctx) \<and>
      slice_from ?ctx (int (length ?ctx) - MaxMessages s) \<noteq> Inl SliceBoundsOutOfRange"
    using assms by (simp add: slice_from_def)
  have other: "role \<noteq> ''user'' \<and> role \<noteq> ''assistant'' \<longrightarrow>
      AddMessage s role content = Inr (s\<lparr>Context := last_n (nat (MaxMessages s)) ?ctx\<rparr>) \<and>
      (\<forall>s'. AddMessage s role content = Inr s' \<longrightarrow>
         LastUser s' = LastUser s \<and> LastAssistant s' = LastAssistant s \<and>
         (1 \<le> MaxMessages s \<longrightarrow> Context s' \<noteq> [] \<and> last (Context s') = \<lparr>Role = role, Content = content\<rparr>))"
  proof (intro impI)
    assume role: "role \<noteq> ''user'' \<and> role \<noteq> ''assistant''"
    from s1 role have eq: "s1 = s\<lparr>Context := last_n (nat (MaxMessages s)) ?ctx\<rparr>"
      by (auto simp: AddMessage_def Let_def split: sum.splits if_splits)
    have keep: "1 \<le> MaxMessages s \<longrightarrow>
        last_n (nat (MaxMessages s)) ?ctx \<noteq> [] \<and>
        last (last_n (nat (MaxMessages s)) ?ctx) = \<lparr>Role = role, Content = content\<rparr>"
      by (auto simp: last_n_def)
    from s1(1) eq keep
    show "AddMessage s role content = Inr (s\<lparr>Context := last_n (nat (MaxMessages s)) ?ctx\<rparr>) \<and>
      (\<forall>s'. AddMessage s role content = Inr s' \<longrightarrow>
         LastUser s' = LastUser s \<and> LastAssistant s' = LastAssistant s \<and>
         (1 \<le> MaxMessages s \<longrightarrow> Context s' \<noteq> [] \<and> last (Context s') = \<lparr>Role = role, Content = content\<rparr>))"
      by simp
  qed
  from total index other show ?thesis
    by blast
qed

theorem C10_AddMessage_total_witness:
  "0 \<le> MaxMessages (NewConversationSession ''u'') \<and>
   ''system'' \<noteq> ''user'' \<and> ''system'' \<noteq> ''assistant'' \<and>
   AddMessage (NewConversationSession ''u'') ''system'' ''be brief'' =
     Inr ((NewConversationSession ''u'')\<lparr>Context := [\<lparr>Role = ''system'', Content = ''be brief''\<rparr>]\<rparr>) \<and>
   MaxMessages ((NewConversationSession ''u'')\<lparr>MaxMessages := 0\<rparr>)
     < int (length (Context (NewConversationSession ''u'') @ [\<lparr>Role = ''system'', Content = ''x''\<rparr>])) \<and>
   slice_from [\<lparr>Role = ''system'', Content = ''x''\<rparr>] 1 \<noteq> Inl SliceBoundsOutOfRange"
  using C10_AddMessage_total [of "NewConversationSession ''u''" "''system''" "''be brief''"]
    C10_AddMessage_total [of "(NewConversationSession ''u'')\<lparr>MaxMessages := 0\<rparr>" "''system''" "''x''"]
  by (simp add: NewConversationSession_def last_n_def)

section \<open>Properties of the pipeline\<close>

text \<open>
  The pipeline rejects a transcript that \<^verbatim>\<open>strings.TrimSpace\<close> reduces to the empty
  string: these are exactly the blank transcripts.
\<close>

lemma strip_leading_empty_iff:
  "strip_leading white_space_utf8 s = [] \<longleftrightarrow> only_white_space s"
proof (induction s rule: only_white_space.induct)
  case 1
  show ?case by simp
next
  case (2 c cs)
  show ?case
  proof (cases "match_width white_space_utf8 (c # cs) = 0")
    case True
    then show ?thesis
      by (simp add: Let_def)
  next
    case False
    with "2.IH" [OF refl] show ?thesis
      by (simp add: Let_def)
  qed
qed

lemma strip_leading_stops:
  "strip_leading encs s = c # cs \<Longrightarrow> match_width encs (c # cs) = 0"
proof (induction encs s rule: strip_leading.induct)
  case (1 encs)
  then show ?case by simp
next
  case (2 encs d ds)
  show ?case
  proof (cases "match_width encs (d # ds) = 0")
    case True
    with "2.prems" show ?thesis
      by (simp add: Let_def)
  next
    case False
    with "2.prems" have "strip_leading encs (drop (match_width encs (d # ds) - 1) ds) = c # cs"
      by (simp add: Let_def)
    with "2.IH" [OF refl False] show ?thesis
      by simp
  qed
qed

lemma match_width_Some:
  assumes "match_width encs s \<noteq> 0"
  shows "\<exists>e \<in> set encs. take (length e) (map of_char s) = e \<and> match_width encs s = length e"
proof (cases "find (\<lambda>e. take (length e) (map of_char s) = e) encs")
  case None
  with assms show ?thesis
    by (simp add: match_width_def)
next
  case (Some e)
  then have "e \<in> set encs" and "take (length e) (map of_char s) = e"
    by (auto simp: find_Some_iff)
  with Some show ?thesis
    by (auto simp: match_width_def)
qed

lemma strip_leading_empty_concat:
  "strip_leading encs s = [] \<Longrightarrow> \<exists>es. set es \<subseteq> set encs \<and> map of_char s = concat es"
proof (induction encs s rule: strip_leading.induct)
  case (1 encs)
  have "set [] \<subseteq> set encs \<and> map of_char ([] :: string) = (concat [] :: nat list)"
    by simp
  then show ?case
    by blast
next
  case (2 encs c cs)
  from "2.prems" have nz: "match_width encs (c # cs) \<noteq> 0"
    by (auto simp: Let_def split: if_splits)
  with "2.prems" have rest: "strip_leading encs (drop (match_width encs (c # cs) - 1) cs) = []"
    by (simp add: Let_def)
  from match_width_Some [OF nz] obtain e where e: "e \<in> set encs"
      "take (length e) (map of_char (c # cs)) = e" "match_width encs (c # cs) = length e"
    by blast
  from "2.IH" [OF refl nz rest] obtain es where es: "set es \<subseteq> set encs"
      "map of_char (drop (match_width encs (c # cs) - 1) cs) = concat es"
    by blast
  from nz e(3) have "drop (length e) (c # cs) = drop (match_width encs (c # cs) - 1) cs"
    by (cases "length e") simp_all
  then have "map of_char (drop (length e) (c # cs)) = concat es"
    using es(2) by (simp only:)
  then have tail: "drop (length e) (map of_char (c # cs)) = concat es"
    by (simp only: drop_map)
  from e(2) tail have "e @ concat es =
      take (length e) (map of_char (c # cs)) @ drop (length e) (map of_char (c # cs))"
    by (simp only:)
  also have "\<dots> = map of_char (c # cs)"
    by (rule append_take_drop_id)
  finally have "map of_char (c # cs) = concat (e # es)"
    by (simp only: concat.simps)
  moreover from e(1) es(1) have "set (e # es) \<subseteq> set encs"
    by simp
  ultimately show ?case
    by blast
qed

lemma match_width_prefix:
  assumes "e \<in> set encs" and "take (length e) (map of_char s) = e"
    and "\<forall>e \<in> set encs. e \<noteq> []"
  shows "match_width encs s \<noteq> 0"
proof -
  from assms(1,2) have "find (\<lambda>e. take (length e) (map of_char s) = e) encs \<noteq> None"
    by (auto simp: find_None_iff)
  then obtain e' where found: "find (\<lambda>e. take (length e) (map of_char s) = e) encs = Some e'"
    by blast
  then have "e' \<in> set encs"
    by (auto simp: find_Some_iff dest: nth_mem)
  with assms(3) have "e' \<noteq> []"
    by blast
  with found show ?thesis
    by (simp add: match_width_def)
qed

lemma white_space_utf8_nonempty: "\<forall>e \<in> set white_space_utf8. e \<noteq> []"
  by (simp add: white_space_utf8_def)

lemma TrimSpace_empty_iff: "TrimSpace s = [] \<longleftrightarrow> only_white_space s"
proof
  assume "only_white_space s"
  then have "TrimLeftSpace s = []"
    by (simp add: TrimLeftSpace_def strip_leading_empty_iff)
  then show "TrimSpace s = []"
    by (simp add: TrimSpace_def TrimRightSpace_def)
next
  assume trimmed: "TrimSpace s = []"
  show "only_white_space s"
  proof (rule ccontr)
    assume "\<not> only_white_space s"
    then obtain c cs where left: "strip_leading white_space_utf8 s = c # cs"
      by (auto simp: strip_leading_empty_iff [symmetric] neq_Nil_conv)
    from strip_leading_stops [OF left] have stop: "match_width white_space_utf8 (c # cs) = 0" .
    from trimmed left have "strip_leading (map rev white_space_utf8) (rev (c # cs)) = []"
      by (simp add: TrimSpace_def TrimRightSpace_def TrimLeftSpace_def)
    from strip_leading_empty_concat [OF this]
    obtain es where es: "set es \<subseteq> set (map rev white_space_utf8)"
        "map of_char (rev (c # cs)) = concat es"
      by blast
    have "map of_char (c # cs) = rev (map of_char (rev (c # cs)))"
      by (simp add: rev_map)
    also have "\<dots> = concat (map rev (rev es))"
      by (simp only: es(2) rev_concat)
    finally have bytes: "map of_char (c # cs) = concat (map rev (rev es))" .
    from es(1) have sub: "set (map rev (rev es)) \<subseteq> set white_space_utf8"
      by auto
    from bytes obtain f fs where fs: "map rev (rev es) = f # fs"
      by (cases "map rev (rev es)") auto
    with sub have f: "f \<in> set white_space_utf8"
      by simp
    from bytes fs have "take (length f) (map of_char (c # cs)) = f"
      by simp
    from match_width_prefix [OF f this white_space_utf8_nonempty] stop show False
      by simp
  qed
qed



lemma AddMessage_user:
  assumes "0 \<le> MaxMessages s"
  shows "AddMessage s ''user'' t =
    Inr (s\<lparr>Context := last_n (nat (MaxMessages s)) (Context s @ [\<lparr>Role = ''user'', Content = t\<rparr>]),
           LastUser := t\<rparr>)"
proof -
  from AddMessage_window [OF assms, of "''user''" t]
  obtain s1 where s1: "AddMessage s ''user'' t = Inr s1"
      "Context s1 = last_n (nat (MaxMessages s)) (Context s @ [\<lparr>Role = ''user'', Content = t\<rparr>])"
    by blast
  then show ?thesis
    by (auto simp: AddMessage_def Let_def split: sum.splits if_splits)
qed

lemma AddMessage_assistant:
  assumes "0 \<le> MaxMessages s"
  shows "AddMessage s ''assistant'' r =
    Inr (s\<lparr>Context := last_n (nat (MaxMessages s)) (Context s @ [\<lparr>Role = ''assistant'', Content = r\<rparr>]),
           LastAssistant := r\<rparr>)"
proof -
  from AddMessage_window [OF assms, of "''assistant''" r]
  obtain s1 where s1: "AddMessage s ''assistant'' r = Inr s1"
      "Context s1 = last_n (nat (MaxMessages s)) (Context s @ [\<lparr>Role = ''assistant'', Content = r\<rparr>])"
    by blast
  then show ?thesis
    by (auto simp: AddMessage_def Let_def split: sum.splits if_splits)
qed

lemma ProcessAudio_transcribed:
  assumes "0 \<le> MaxMessages s"
    and "stt_Transcribe (stt orch) audio = (t, None)"
    and "\<not> only_white_space t"
  shows "ProcessAudio orch s audio =
    (case llm_Complete (llm orch) (Context (user_turn s t)) of
       (r, Some e) \<Rightarrow>
         Inr ((t, [], Some (WrapError ''LLM failed: '' e)), user_turn s t,
              [SttTranscribe audio, SessionAddMessage ''user'' t, LlmComplete (Context (user_turn s t))])
     | (r, None) \<Rightarrow>
        (case tts_Synthesize (tts orch) r (CurrentVoice s) of
           (a, Some e) \<Rightarrow>
             Inr ((t, [], Some (WrapError ''TTS failed: '' e)), assistant_turn (user_turn s t) r,
                  [SttTranscribe audio, SessionAddMessage ''user'' t, LlmComplete (Context (user_turn s t)),
                   SessionAddMessage ''assistant'' r, TtsSynthesize r (CurrentVoice s)])
         | (a, None) \<Rightarrow>
             Inr ((t, a, None), assistant_turn (user_turn s t) r,
                  [SttTranscribe audio, SessionAddMessage ''user'' t, LlmComplete (Context (user_turn s t)),
                   SessionAddMessage ''assistant'' r, TtsSynthesize r (CurrentVoice s)])))"
proof -
  have u: "AddMessage s ''user'' t = Inr (user_turn s t)"
    unfolding user_turn_def by (rule AddMessage_user [OF assms(1)])
  have "0 \<le> MaxMessages (user_turn s t)"
    using assms(1) by (simp add: user_turn_def)
  then have a: "\<And>r. AddMessage (user_turn s t) ''assistant'' r = Inr (assistant_turn (user_turn s t) r)"
    unfolding assistant_turn_def by (rule AddMessage_assistant)
  have v: "\<And>r. CurrentVoice (assistant_turn (user_turn s t) r) = CurrentVoice s"
    by (simp add: assistant_turn_def user_turn_def)
  show ?thesis
    using assms(2,3)
    by (simp add: ProcessAudio_def Transcribe_def GenerateResponse_def Synthesize_def u a v
        TrimSpace_empty_iff split: prod.splits option.splits)
qed

lemma ProcessAudioStream_transcribed:
  assumes "0 \<le> MaxMessages s"
    and "stt_Transcribe (stt orch) audio = (t, None)"
    and "\<not> only_white_space t"
  shows "ProcessAudioStream orch s audio onChunk =
    (case llm_Complete (llm orch) (Context (user_turn s t)) of
       (r, Some e) \<Rightarrow>
         Inr ((t, Some (WrapError ''LLM failed: '' e)), user_turn s t,
              [SttTranscribe audio, SessionAddMessage ''user'' t, LlmComplete (Context (user_turn s t))])
     | (r, None) \<Rightarrow>
        (case tts_StreamSynthesize (tts orch) r (CurrentVoice s) onChunk of
           Some e \<Rightarrow>
             Inr ((t, Some (WrapError ''TTS stream failed: '' e)), assistant_turn (user_turn s t) r,
                  [SttTranscribe audio, SessionAddMessage ''user'' t, LlmComplete (Context (user_turn s t)),
                   SessionAddMessage ''assistant'' r, TtsStreamSynthesize r (CurrentVoice s)])
         | None \<Rightarrow>
             Inr ((t, None), assistant_turn (user_turn s t) r,
                  [SttTranscribe audio, SessionAddMessage ''user'' t, LlmComplete (Context (user_turn s t)),
                   SessionAddMessage ''assistant'' r, TtsStreamSynthesize r (CurrentVoice s)])))"
proof -
  have u: "AddMessage s ''user'' t = Inr (user_turn s t)"
    unfolding user_turn_def by (rule AddMessage_user [OF assms(1)])
  have "0 \<le> MaxMessages (user_turn s t)"
    using assms(1) by (simp add: user_turn_def)
  then have a: "\<And>r. AddMessage (user_turn s t) ''assistant'' r = Inr (assistant_turn (user_turn s t) r)"
    unfolding assistant_turn_def by (rule AddMessage_assistant)
  have v: "\<And>r. CurrentVoice (assistant_turn (user_turn s t) r) = CurrentVoice s"
    by (simp add: assistant_turn_def user_turn_def)
  show ?thesis
    using assms(2,3)
    by (simp add: ProcessAudioStream_def Transcribe_def GenerateResponse_def SynthesizeStream_def u a v
        TrimSpace_empty_iff split: prod.splits option.splits)
qed


lemma last_n_two:
  assumes "2 \<le> n"
  shows "last_n n (xs @ [a, b]) = last_n (n - 2) xs @ [a, b]"
  using assms by (simp add: last_n_def)

lemma last_n_snoc:
  assumes "1 \<le> n"
  shows "last_n n (xs @ [a]) = last_n (n - 1) xs @ [a]"
  using assms by (simp add: last_n_def)

text \<open>
  C5. When the STT collaborator succeeds with a blank transcript (empty or only white
  space), \<^verbatim>\<open>ProcessAudio\<close> and \<^verbatim>\<open>ProcessAudioStream\<close> return the
  error \<open>empty transcription\<close> with an empty transcript; the only call made is the transcription, so the LLM is not invoked
  and no message is appended; the session is returned as it was. This holds for every
  session, whatever its \<open>MaxMessages\<close>.
\<close>

theorem C5_blank_transcript_rejected:
  assumes "stt_Transcribe (stt orch) audio = (t, None)"
    and "only_white_space t"
  shows "ProcessAudio orch s audio =
           Inr (('''', [], Some (ErrorString ''empty transcription'')), s, [SttTranscribe audio]) \<and>
         ProcessAudioStream orch s audio onChunk =
           Inr (('''', Some (ErrorString ''empty transcription'')), s, [SttTranscribe audio])"
  using assms
  by (simp add: ProcessAudio_def ProcessAudioStream_def Transcribe_def TrimSpace_empty_iff)

theorem C5_blank_transcript_rejected_witness:
  "stt_Transcribe (stt (New (MockSTTProvider ''   '' None) (MockLLMProvider ''Hi there!'' None)
       (MockTTSProvider [0x01, 0x02] None None) DefaultConfig)) [0xFF, 0xFE] = (''   '', None) \<and>
   only_white_space ''   '' \<and>
   ProcessAudio (New (MockSTTProvider ''   '' None) (MockLLMProvider ''Hi there!'' None)
       (MockTTSProvider [0x01, 0x02] None None) DefaultConfig)
     (NewConversationSession ''test_user'') [0xFF, 0xFE] =
     Inr (('''', [], Some (ErrorString ''empty transcription'')), NewConversationSession ''test_user'',
          [SttTranscribe [0xFF, 0xFE]]) \<and>
   ProcessAudioStream (New (MockSTTProvider ''   '' None) (MockLLMProvider ''Hi there!'' None)
       (MockTTSProvider [0x01, 0x02] None None) DefaultConfig)
     (NewConversationSession ''test_user'') [0xFF, 0xFE] (\<lambda>chunk. None) =
     Inr (('''', Some (ErrorString ''empty transcription'')), NewConversationSession ''test_user'',
          [SttTranscribe [0xFF, 0xFE]])"
proof -
  let ?orch = "New (MockSTTProvider ''   '' None) (MockLLMProvider ''Hi there!'' None)
       (MockTTSProvider [0x01, 0x02] None None) DefaultConfig"
  have stt: "stt_Transcribe (stt ?orch) [0xFF, 0xFE] = (''   '', None)"
    by (simp add: New_def MockSTTProvider_def)
  have blank: "only_white_space ''   ''"
    by (simp add: match_width_def white_space_utf8_def)
  from C5_blank_transcript_rejected
         [OF stt blank, of "NewConversationSession ''test_user''" "\<lambda>chunk. None"] stt blank
  show ?thesis
    by blast
qed


text \<open>
  C3. For a session with \<open>MaxMessages \<ge> 1\<close> and a transcription that succeeds with a
  transcript that is not blank: \<^verbatim>\<open>AddMessage\<close> of the user turn gives the session
  \<open>s1\<close>, whose context is the window over the old context and the user message, is within
  the bound, and ends with that user message. Both \<^verbatim>\<open>ProcessAudio\<close> and
  \<^verbatim>\<open>ProcessAudioStream\<close> then call the LLM exactly once, with the whole context of
  \<open>s1\<close>. When that call fails they return the transcript and the wrapped error and leave
  the session \<open>s1\<close>: the user turn is committed and no assistant turn is. When it
  succeeds with \<open>r\<close> they leave the session \<open>s2\<close> that \<^verbatim>\<open>AddMessage\<close> of the
  assistant turn makes of \<open>s1\<close>, so the assistant turn is appended to the context that
  already holds the user turn, and only after the LLM call; synthesis is called last, and
  its outcome decides what is returned.
\<close>

theorem C3_llm_sees_bounded_context:
  assumes "1 \<le> MaxMessages s"
    and "stt_Transcribe (stt orch) audio = (t, None)"
    and "\<not> only_white_space t"
  shows "\<exists>s1.
           AddMessage s ''user'' t = Inr s1 \<and>
           Context s1 = last_n (nat (MaxMessages s)) (Context s @ [\<lparr>Role = ''user'', Content = t\<rparr>]) \<and>
           length (Context s1) \<le> nat (MaxMessages s) \<and>
           Context s1 \<noteq> [] \<and> last (Context s1) = \<lparr>Role = ''user'', Content = t\<rparr> \<and>
           LastUser s1 = t \<and> LastAssistant s1 = LastAssistant s \<and>
           (\<forall>r e. llm_Complete (llm orch) (Context s1) = (r, Some e) \<longrightarrow>
              ProcessAudio orch s audio =
                Inr ((t, [], Some (WrapError ''LLM failed: '' e)), s1,
                     [SttTranscribe audio, SessionAddMessage ''user'' t, LlmComplete (Context s1)]) \<and>
              ProcessAudioStream orch s audio onChunk =
                Inr ((t, Some (WrapError ''LLM failed: '' e)), s1,
                     [SttTranscribe audio, SessionAddMessage ''user'' t, LlmComplete (Context s1)])) \<and>
           (\<forall>r. llm_Complete (llm orch) (Context s1) = (r, None) \<longrightarrow>
              (\<exists>s2.
                 AddMessage s1 ''assistant'' r = Inr s2 \<and>
                 Context s2 = last_n (nat (MaxMessages s))
                                (Context s1 @ [\<lparr>Role = ''assistant'', Content = r\<rparr>]) \<and>
                 last (Context s2) = \<lparr>Role = ''assistant'', Content = r\<rparr> \<and>
                 LastUser s2 = t \<and> LastAssistant s2 = r \<and>
                 CurrentVoice s2 = CurrentVoice s \<and>
                 ProcessAudio orch s audio =
                   Inr ((case tts_Synthesize (tts orch) r (CurrentVoice s2) of
                           (a, Some e) \<Rightarrow> (t, [], Some (WrapError ''TTS failed: '' e))
                         | (a, None) \<Rightarrow> (t, a, None)),
                        s2,
                        [SttTranscribe audio, SessionAddMessage ''user'' t, LlmComplete (Context s1),
                         SessionAddMessage ''assistant'' r, TtsSynthesize r (CurrentVoice s2)]) \<and>
                 ProcessAudioStream orch s audio onChunk =
                   Inr ((t, (case tts_StreamSynthesize (tts orch) r (CurrentVoice s2) onChunk of
                               Some e \<Rightarrow> Some (WrapError ''TTS stream failed: '' e)
                             | None \<Rightarrow> None)),
                        s2,
                        [SttTranscribe audio, SessionAddMessage ''user'' t, LlmComplete (Context s1),
                         SessionAddMessage ''assistant'' r, TtsStreamSynthesize r (CurrentVoice s2)])))"
proof -
  from assms(1) have nonneg: "0 \<le> MaxMessages s"
    by simp
  from assms(1) have pos: "1 \<le> nat (MaxMessages s)"
    by simp
  let ?s1 = "user_turn s t"
  have add: "AddMessage s ''user'' t = Inr ?s1"
    unfolding user_turn_def by (rule AddMessage_user [OF nonneg])
  have ctx: "Context ?s1 =
      last_n (nat (MaxMessages s)) (Context s @ [\<lparr>Role = ''user'', Content = t\<rparr>])"
    by (simp add: user_turn_def)
  have len: "length (Context ?s1) \<le> nat (MaxMessages s)"
    unfolding ctx by (simp add: last_n_length)
  have newest: "Context ?s1 \<noteq> [] \<and> last (Context ?s1) = \<lparr>Role = ''user'', Content = t\<rparr>"
    unfolding ctx last_n_snoc [OF pos] by simp
  have caches: "LastUser ?s1 = t \<and> LastAssistant ?s1 = LastAssistant s"
    by (simp add: user_turn_def)
  have failed: "\<forall>r e. llm_Complete (llm orch) (Context ?s1) = (r, Some e) \<longrightarrow>
      ProcessAudio orch s audio =
        Inr ((t, [], Some (WrapError ''LLM failed: '' e)), ?s1,
             [SttTranscribe audio, SessionAddMessage ''user'' t, LlmComplete (Context ?s1)]) \<and>
      ProcessAudioStream orch s audio onChunk =
        Inr ((t, Some (WrapError ''LLM failed: '' e)), ?s1,
             [SttTranscribe audio, SessionAddMessage ''user'' t, LlmComplete (Context ?s1)])"
    unfolding ProcessAudio_transcribed [OF nonneg assms(2,3)]
      ProcessAudioStream_transcribed [OF nonneg assms(2,3)]
    by simp
  have answered: "\<forall>r. llm_Complete (llm orch) (Context ?s1) = (r, None) \<longrightarrow>
      (\<exists>s2.
         AddMessage ?s1 ''assistant'' r = Inr s2 \<and>
         Context s2 = last_n (nat (MaxMessages s))
                        (Context ?s1 @ [\<lparr>Role = ''assistant'', Content = r\<rparr>]) \<and>
         last (Context s2) = \<lparr>Role = ''assistant'', Content = r\<rparr> \<and>
         LastUser s2 = t \<and> LastAssistant s2 = r \<and>
         CurrentVoice s2 = CurrentVoice s \<and>
         ProcessAudio orch s audio =
           Inr ((case tts_Synthesize (tts orch) r (CurrentVoice s2) of
                   (a, Some e) \<Rightarrow> (t, [], Some (WrapError ''TTS failed: '' e))
                 | (a, None) \<Rightarrow> (t, a, None)),
                s2,
                [SttTranscribe audio, SessionAddMessage ''user'' t, LlmComplete (Context ?s1),
                 SessionAddMessage ''assistant'' r, TtsSynthesize r (CurrentVoice s2)]) \<and>
         ProcessAudioStream orch s audio onChunk =
           Inr ((t, (case tts_StreamSynthesize (tts orch) r (CurrentVoice s2) onChunk of
                       Some e \<Rightarrow> Some (WrapError ''TTS stream failed: '' e)
                     | None \<Rightarrow> None)),
                s2,
                [SttTranscribe audio, SessionAddMessage ''user'' t, LlmComplete (Context ?s1),
                 SessionAddMessage ''assistant'' r, TtsStreamSynthesize r (CurrentVoice s2)]))"
  proof (intro allI impI)
    fix r
    assume llm: "llm_Complete (llm orch) (Context ?s1) = (r, None)"
    let ?s2 = "assistant_turn ?s1 r"
    have nonneg1: "0 \<le> MaxMessages ?s1"
      using nonneg by (simp add: user_turn_def)
    have add2: "AddMessage ?s1 ''assistant'' r = Inr ?s2"
      unfolding assistant_turn_def by (rule AddMessage_assistant [OF nonneg1])
    have ctx2: "Context ?s2 = last_n (nat (MaxMessages s))
        (Context ?s1 @ [\<lparr>Role = ''assistant'', Content = r\<rparr>])"
      by (simp add: assistant_turn_def user_turn_def)
    have newest2: "last (Context ?s2) = \<lparr>Role = ''assistant'', Content = r\<rparr>"
      unfolding ctx2 last_n_snoc [OF pos] by simp
    have caches2: "LastUser ?s2 = t \<and> LastAssistant ?s2 = r \<and> CurrentVoice ?s2 = CurrentVoice s"
      by (simp add: assistant_turn_def user_turn_def)
    then have voice: "CurrentVoice ?s2 = CurrentVoice s"
      by simp
    have batch: "ProcessAudio orch s audio =
        Inr ((case tts_Synthesize (tts orch) r (CurrentVoice ?s2) of
                (a, Some e) \<Rightarrow> (t, [], Some (WrapError ''TTS failed: '' e))
              | (a, None) \<Rightarrow> (t, a, None)),
             ?s2,
             [SttTranscribe audio, SessionAddMessage ''user'' t, LlmComplete (Context ?s1),
              SessionAddMessage ''assistant'' r, TtsSynthesize r (CurrentVoice ?s2)])"
      unfolding ProcessAudio_transcribed [OF nonneg assms(2,3)] voice
      using llm by (simp split: prod.splits option.splits)
    have stream: "ProcessAudioStream orch s audio onChunk =
        Inr ((t, (case tts_StreamSynthesize (tts orch) r (CurrentVoice ?s2) onChunk of
                    Some e \<Rightarrow> Some (WrapError ''TTS stream failed: '' e)
                  | None \<Rightarrow> None)),
             ?s2,
             [SttTranscribe audio, SessionAddMessage ''user'' t, LlmComplete (Context ?s1),
              SessionAddMessage ''assistant'' r, TtsStreamSynthesize r (CurrentVoice ?s2)])"
      unfolding ProcessAudioStream_transcribed [OF nonneg assms(2,3)] voice
      using llm by (simp split: prod.splits option.splits)
    from add2 ctx2 newest2 caches2 batch stream
    show "\<exists>s2.
         AddMessage ?s1 ''assistant'' r = Inr s2 \<and>
         Context s2 = last_n (nat (MaxMessages s))
                        (Context ?s1 @ [\<lparr>Role = ''assistant'', Content = r\<rparr>]) \<and>
         last (Context s2) = \<lparr>Role = ''assistant'', Content = r\<rparr> \<and>
         LastUser s2 = t \<and> LastAssistant s2 = r \<and>
         CurrentVoice s2 = CurrentVoice s \<and>
         ProcessAudio orch s audio =
           Inr ((case tts_Synthesize (tts orch) r (CurrentVoice s2) of
                   (a, Some e) \<Rightarrow> (t, [], Some (WrapError ''TTS failed: '' e))
                 | (a, None) \<Rightarrow> (t, a, None)),
                s2,
                [SttTranscribe audio, SessionAddMessage ''user'' t, LlmComplete (Context ?s1),
                 SessionAddMessage ''assistant'' r, TtsSynthesize r (CurrentVoice s2)]) \<and>
         ProcessAudioStream orch s audio onChunk =
           Inr ((t, (case tts_StreamSynthesize (tts orch) r (CurrentVoice s2) onChunk of
                       Some e \<Rightarrow> Some (WrapError ''TTS stream failed: '' e)
                     | None \<Rightarrow> None)),
                s2,
                [SttTranscribe audio, SessionAddMessage ''user'' t, LlmComplete (Context ?s1),
                 SessionAddMessage ''assistant'' r, TtsStreamSynthesize r (CurrentVoice s2)])"
      by (intro exI [of _ ?s2]) (simp only: simp_thms)
  qed
  from add ctx len newest caches failed answered show ?thesis
    by (intro exI [of _ ?s1]) (simp only: simp_thms)
qed

theorem C3_llm_sees_bounded_context_witness:
  "1 \<le> MaxMessages (NewConversationSession ''test_user'') \<and>
   stt_Transcribe (stt (New (MockSTTProvider ''Hello'' None) (MockLLMProvider ''Hi there!'' None)
       (MockTTSProvider [0x01, 0x02] None None) DefaultConfig)) [0xFF, 0xFE] = (''Hello'', None) \<and>
   \<not> only_white_space ''Hello'' \<and>
   llm_Complete (llm (New (MockSTTProvider ''Hello'' None) (MockLLMProvider ''Hi there!'' None)
       (MockTTSProvider [0x01, 0x02] None None) DefaultConfig))
     [\<lparr>Role = ''user'', Content = ''Hello''\<rparr>] = (''Hi there!'', None) \<and>
   ProcessAudio (New (MockSTTProvider ''Hello'' None) (MockLLMProvider ''Hi there!'' None)
       (MockTTSProvider [0x01, 0x02] None None) DefaultConfig)
     (NewConversationSession ''test_user'') [0xFF, 0xFE] =
     Inr ((''Hello'', [0x01, 0x02], None),
          (NewConversationSession ''test_user'')
            \<lparr>Context := [\<lparr>Role = ''user'', Content = ''Hello''\<rparr>,
                          \<lparr>Role = ''assistant'', Content = ''Hi there!''\<rparr>],
             LastUser := ''Hello'', LastAssistant := ''Hi there!''\<rparr>,
          [SttTranscribe [0xFF, 0xFE], SessionAddMessage ''user'' ''Hello'',
           LlmComplete [\<lparr>Role = ''user'', Content = ''Hello''\<rparr>],
           SessionAddMessage ''assistant'' ''Hi there!'', TtsSynthesize ''Hi there!'' VoiceF1]) \<and>
   llm_Complete (llm (New (MockSTTProvider ''Hello'' None)
       (MockLLMProvider [] (Some (ErrorString ''llm down''))) (MockTTSProvider [0x01, 0x02] None None)
       DefaultConfig)) [\<lparr>Role = ''user'', Content = ''Hello''\<rparr>]
     = ([], Some (ErrorString ''llm down'')) \<and>
   ProcessAudioStream (New (MockSTTProvider ''Hello'' None)
       (MockLLMProvider [] (Some (ErrorString ''llm down''))) (MockTTSProvider [0x01, 0x02] None None)
       DefaultConfig)
     (NewConversationSession ''test_user'') [0xFF, 0xFE] (\<lambda>chunk. None) =
     Inr ((''Hello'', Some (WrapError ''LLM failed: '' (ErrorString ''llm down''))),
          (NewConversationSession ''test_user'')
            \<lparr>Context := [\<lparr>Role = ''user'', Content = ''Hello''\<rparr>], LastUser := ''Hello''\<rparr>,
          [SttTranscribe [0xFF, 0xFE], SessionAddMessage ''user'' ''Hello'',
           LlmComplete [\<lparr>Role = ''user'', Content = ''Hello''\<rparr>]])"
proof -
  let ?orch = "New (MockSTTProvider ''Hello'' None) (MockLLMProvider ''Hi there!'' None)
       (MockTTSProvider [0x01, 0x02] None None) DefaultConfig"
  let ?down = "New (MockSTTProvider ''Hello'' None)
       (MockLLMProvider [] (Some (ErrorString ''llm down''))) (MockTTSProvider [0x01, 0x02] None None)
       DefaultConfig"
  let ?s = "NewConversationSession ''test_user''"
  let ?u = "\<lparr>Role = ''user'', Content = ''Hello''\<rparr>"
  let ?a = "\<lparr>Role = ''assistant'', Content = ''Hi there!''\<rparr>"
  have window: "1 \<le> MaxMessages ?s"
    by (simp add: NewConversationSession_def)
  have stt: "stt_Transcribe (stt ?orch) [0xFF, 0xFE] = (''Hello'', None)"
    by (simp add: New_def MockSTTProvider_def)
  have stt_down: "stt_Transcribe (stt ?down) [0xFF, 0xFE] = (''Hello'', None)"
    by (simp add: New_def MockSTTProvider_def)
  have nonblank: "\<not> only_white_space ''Hello''"
    by (simp add: match_width_def white_space_utf8_def)
  have llm: "llm_Complete (llm ?orch) [?u] = (''Hi there!'', None)"
    by (simp add: New_def MockLLMProvider_def)
  have llm_down: "llm_Complete (llm ?down) [?u] = ([], Some (ErrorString ''llm down''))"
    by (simp add: New_def MockLLMProvider_def)
  have user: "AddMessage ?s ''user'' ''Hello'' = Inr (?s\<lparr>Context := [?u], LastUser := ''Hello''\<rparr>)"
    by (simp add: AddMessage_def NewConversationSession_def Let_def)
  have assistant: "AddMessage (?s\<lparr>Context := [?u], LastUser := ''Hello''\<rparr>) ''assistant'' ''Hi there!''
      = Inr (?s\<lparr>Context := [?u, ?a], LastUser := ''Hello'', LastAssistant := ''Hi there!''\<rparr>)"
    by (simp add: AddMessage_def NewConversationSession_def Let_def)
  have tts: "tts_Synthesize (tts ?orch) ''Hi there!'' VoiceF1 = ([0x01, 0x02], None)"
    by (simp add: New_def MockTTSProvider_def)
  from C3_llm_sees_bounded_context [OF window stt nonblank, of "\<lambda>chunk. None"]
  obtain s1 where a1: "AddMessage ?s ''user'' ''Hello'' = Inr s1"
    and answered: "\<forall>r. llm_Complete (llm ?orch) (Context s1) = (r, None) \<longrightarrow>
      (\<exists>s2.
         AddMessage s1 ''assistant'' r = Inr s2 \<and>
         Context s2 = last_n (nat (MaxMessages ?s))
                        (Context s1 @ [\<lparr>Role = ''assistant'', Content = r\<rparr>]) \<and>
         last (Context s2) = \<lparr>Role = ''assistant'', Content = r\<rparr> \<and>
         LastUser s2 = ''Hello'' \<and> LastAssistant s2 = r \<and>
         CurrentVoice s2 = CurrentVoice ?s \<and>
         ProcessAudio ?orch ?s [0xFF, 0xFE] =
           Inr ((case tts_Synthesize (tts ?orch) r (CurrentVoice s2) of
                   (a, Some e) \<Rightarrow> (''Hello'', [], Some (WrapError ''TTS failed: '' e))
                 | (a, None) \<Rightarrow> (''Hello'', a, None)),
                s2,
                [SttTranscribe [0xFF, 0xFE], SessionAddMessage ''user'' ''Hello'', LlmComplete (Context s1),
                 SessionAddMessage ''assistant'' r, TtsSynthesize r (CurrentVoice s2)]) \<and>
         ProcessAudioStream ?orch ?s [0xFF, 0xFE] (\<lambda>chunk. None) =
           Inr ((''Hello'', (case tts_StreamSynthesize (tts ?orch) r (CurrentVoice s2) (\<lambda>chunk. None) of
                       Some e \<Rightarrow> Some (WrapError ''TTS stream failed: '' e)
                     | None \<Rightarrow> None)),
                s2,
                [SttTranscribe [0xFF, 0xFE], SessionAddMessage ''user'' ''Hello'', LlmComplete (Context s1),
                 SessionAddMessage ''assistant'' r, TtsStreamSynthesize r (CurrentVoice s2)]))"
    by blast
  from a1 user have s1: "s1 = ?s\<lparr>Context := [?u], LastUser := ''Hello''\<rparr>"
    by simp
  then have c1: "Context s1 = [?u]"
    by simp
  from answered llm c1
  obtain s2 where a2: "AddMessage s1 ''assistant'' ''Hi there!'' = Inr s2"
    and voice: "CurrentVoice s2 = CurrentVoice ?s"
    and batch: "ProcessAudio ?orch ?s [0xFF, 0xFE] =
           Inr ((case tts_Synthesize (tts ?orch) ''Hi there!'' (CurrentVoice s2) of
                   (a, Some e) \<Rightarrow> (''Hello'', [], Some (WrapError ''TTS failed: '' e))
                 | (a, None) \<Rightarrow> (''Hello'', a, None)),
                s2,
                [SttTranscribe [0xFF, 0xFE], SessionAddMessage ''user'' ''Hello'', LlmComplete (Context s1),
                 SessionAddMessage ''assistant'' ''Hi there!'',
                 TtsSynthesize ''Hi there!'' (CurrentVoice s2)])"
    by auto
  from a2 assistant have s2: "s2 = ?s\<lparr>Context := [?u, ?a], LastUser := ''Hello'',
      LastAssistant := ''Hi there!''\<rparr>"
    unfolding s1 by simp
  from voice have v: "CurrentVoice s2 = VoiceF1"
    by (simp add: NewConversationSession_def)
  from batch have run: "ProcessAudio ?orch ?s [0xFF, 0xFE] =
     Inr ((''Hello'', [0x01, 0x02], None),
          ?s\<lparr>Context := [?u, ?a], LastUser := ''Hello'', LastAssistant := ''Hi there!''\<rparr>,
          [SttTranscribe [0xFF, 0xFE], SessionAddMessage ''user'' ''Hello'', LlmComplete [?u],
           SessionAddMessage ''assistant'' ''Hi there!'', TtsSynthesize ''Hi there!'' VoiceF1])"
    unfolding v c1 tts unfolding s2 by simp
  from C3_llm_sees_bounded_context [OF window stt_down nonblank, of "\<lambda>chunk. None"]
  obtain s1' where b1: "AddMessage ?s ''user'' ''Hello'' = Inr s1'"
    and failed: "\<forall>r e. llm_Complete (llm ?down) (Context s1') = (r, Some e) \<longrightarrow>
      ProcessAudio ?down ?s [0xFF, 0xFE] =
        Inr ((''Hello'', [], Some (WrapError ''LLM failed: '' e)), s1',
             [SttTranscribe [0xFF, 0xFE], SessionAddMessage ''user'' ''Hello'', LlmComplete (Context s1')]) \<and>
      ProcessAudioStream ?down ?s [0xFF, 0xFE] (\<lambda>chunk. None) =
        Inr ((''Hello'', Some (WrapError ''LLM failed: '' e)), s1',
             [SttTranscribe [0xFF, 0xFE], SessionAddMessage ''user'' ''Hello'', LlmComplete (Context s1')])"
    by blast
  from b1 user have s1': "s1' = ?s\<lparr>Context := [?u], LastUser := ''Hello''\<rparr>"
    by simp
  then have c1': "Context s1' = [?u]"
    by simp
  from failed llm_down c1'
  have "ProcessAudioStream ?down ?s [0xFF, 0xFE] (\<lambda>chunk. None) =
        Inr ((''Hello'', Some (WrapError ''LLM failed: '' (ErrorString ''llm down''))), s1',
             [SttTranscribe [0xFF, 0xFE], SessionAddMessage ''user'' ''Hello'', LlmComplete (Context s1')])"
    by auto
  then have stream: "ProcessAudioStream ?down ?s [0xFF, 0xFE] (\<lambda>chunk. None) =
     Inr ((''Hello'', Some (WrapError ''LLM failed: '' (ErrorString ''llm down''))),
          ?s\<lparr>Context := [?u], LastUser := ''Hello''\<rparr>,
          [SttTranscribe [0xFF, 0xFE], SessionAddMessage ''user'' ''Hello'', LlmComplete [?u]])"
    unfolding c1' unfolding s1' .
  from window stt nonblank llm run llm_down stream show ?thesis
    by (simp only: simp_thms)
qed

text \<open>
  C4 as stated fails for a window of one message: after a failed synthesis the context
  holds the assistant turn only, the user turn having been trimmed away.
\<close>

theorem C4_counterexample:
  "stt_Transcribe (stt (New (MockSTTProvider ''Hello'' None) (MockLLMProvider ''Hi there!'' None)
       (MockTTSProvider [] (Some (ErrorString ''tts down'')) None) DefaultConfig)) [0xFF, 0xFE]
     = (''Hello'', None) \<and>
   \<not> only_white_space ''Hello'' \<and>
   ProcessAudio (New (MockSTTProvider ''Hello'' None) (MockLLMProvider ''Hi there!'' None)
       (MockTTSProvider [] (Some (ErrorString ''tts down'')) None) DefaultConfig)
     ((NewConversationSession ''test_user'')\<lparr>MaxMessages := 1\<rparr>) [0xFF, 0xFE] =
     Inr ((''Hello'', [], Some (WrapError ''TTS failed: '' (ErrorString ''tts down''))),
          (NewConversationSession ''test_user'')
            \<lparr>Context := [\<lparr>Role = ''assistant'', Content = ''Hi there!''\<rparr>],
             LastUser := ''Hello'', LastAssistant := ''Hi there!'', MaxMessages := 1\<rparr>,
          [SttTranscribe [0xFF, 0xFE], SessionAddMessage ''user'' ''Hello'',
           LlmComplete [\<lparr>Role = ''user'', Content = ''Hello''\<rparr>],
           SessionAddMessage ''assistant'' ''Hi there!'', TtsSynthesize ''Hi there!'' VoiceF1]) \<and>
   \<lparr>Role = ''user'', Content = ''Hello''\<rparr> \<notin>
     set (Context (the (session_of
       (ProcessAudio (New (MockSTTProvider ''Hello'' None) (MockLLMProvider ''Hi there!'' None)
           (MockTTSProvider [] (Some (ErrorString ''tts down'')) None) DefaultConfig)
         ((NewConversationSession ''test_user'')\<lparr>MaxMessages := 1\<rparr>) [0xFF, 0xFE]))))"
proof -
  let ?orch = "New (MockSTTProvider ''Hello'' None) (MockLLMProvider ''Hi there!'' None)
       (MockTTSProvider [] (Some (ErrorString ''tts down'')) None) DefaultConfig"
  let ?s = "(NewConversationSession ''test_user'')\<lparr>MaxMessages := 1\<rparr>"
  have stt: "stt_Transcribe (stt ?orch) [0xFF, 0xFE] = (''Hello'', None)"
    by (simp add: New_def MockSTTProvider_def)
  have nonblank: "\<not> only_white_space ''Hello''"
    by (simp add: match_width_def white_space_utf8_def)
  have run: "ProcessAudio ?orch ?s [0xFF, 0xFE] =
     Inr ((''Hello'', [], Some (WrapError ''TTS failed: '' (ErrorString ''tts down''))),
          (NewConversationSession ''test_user'')
            \<lparr>Context := [\<lparr>Role = ''assistant'', Content = ''Hi there!''\<rparr>],
             LastUser := ''Hello'', LastAssistant := ''Hi there!'', MaxMessages := 1\<rparr>,
          [SttTranscribe [0xFF, 0xFE], SessionAddMessage ''user'' ''Hello'',
           LlmComplete [\<lparr>Role = ''user'', Content = ''Hello''\<rparr>],
           SessionAddMessage ''assistant'' ''Hi there!'', TtsSynthesize ''Hi there!'' VoiceF1])"
    using nonblank
    by (simp add: ProcessAudio_def TrimSpace_empty_iff Transcribe_def GenerateResponse_def Synthesize_def New_def
        MockSTTProvider_def MockLLMProvider_def MockTTSProvider_def AddMessage_def slice_from_def
        NewConversationSession_def Let_def)
  have gone: "\<lparr>Role = ''user'', Content = ''Hello''\<rparr> \<notin>
     set (Context (the (session_of (ProcessAudio ?orch ?s [0xFF, 0xFE]))))"
    unfolding run by (simp add: session_of_def)
  from stt nonblank run gone show ?thesis
    by blast
qed

text \<open>
  C4, amended. For a session with \<open>MaxMessages \<ge> 2\<close>: when transcription succeeds with
  a transcript that is not blank, generation succeeds and synthesis fails with \<open>e\<close>,
  \<^verbatim>\<open>ProcessAudio\<close> returns the transcript, no audio and the error \<open>e\<close> wrapped as
  \<open>TTS failed\<close>; the session it leaves has the window over the old context, the user
  turn and the assistant turn as its context, so its last two entries are these two
  turns, and both last-turn caches are set.
\<close>

theorem C4_failed_synthesis_keeps_turns:
  assumes "2 \<le> MaxMessages s"
    and "stt_Transcribe (stt orch) audio = (t, None)"
    and "\<not> only_white_space t"
    and "llm_Complete (llm orch)
           (last_n (nat (MaxMessages s)) (Context s @ [\<lparr>Role = ''user'', Content = t\<rparr>])) = (r, None)"
    and "tts_Synthesize (tts orch) r (CurrentVoice s) = (a, Some e)"
  shows "\<exists>s' cs older.
           ProcessAudio orch s audio =
             Inr ((t, [], Some (WrapError ''TTS failed: '' e)), s', cs) \<and>
           Unwrap (WrapError ''TTS failed: '' e) = Some e \<and>
           Context s' = last_n (nat (MaxMessages s))
             (Context s @ [\<lparr>Role = ''user'', Content = t\<rparr>, \<lparr>Role = ''assistant'', Content = r\<rparr>]) \<and>
           Context s' = older @ [\<lparr>Role = ''user'', Content = t\<rparr>, \<lparr>Role = ''assistant'', Content = r\<rparr>] \<and>
           LastUser s' = t \<and> LastAssistant s' = r"
proof -
  from assms(1) have nonneg: "0 \<le> MaxMessages s"
    by simp
  from assms(1) have two: "2 \<le> nat (MaxMessages s)"
    by simp
  let ?s' = "assistant_turn (user_turn s t) r"
  have llm: "llm_Complete (llm orch) (Context (user_turn s t)) = (r, None)"
    using assms(4) by (simp add: user_turn_def)
  have run: "\<exists>cs. ProcessAudio orch s audio =
      Inr ((t, [], Some (WrapError ''TTS failed: '' e)), ?s', cs)"
    unfolding ProcessAudio_transcribed [OF nonneg assms(2,3)]
    using llm assms(5) by simp
  have ctx: "Context ?s' = last_n (nat (MaxMessages s))
      (Context s @ [\<lparr>Role = ''user'', Content = t\<rparr>, \<lparr>Role = ''assistant'', Content = r\<rparr>])"
    using last_n_append [of "nat (MaxMessages s)" "Context s @ [\<lparr>Role = ''user'', Content = t\<rparr>]"
        "[\<lparr>Role = ''assistant'', Content = r\<rparr>]"]
    by (simp add: assistant_turn_def user_turn_def)
  have tail: "Context ?s' = last_n (nat (MaxMessages s) - 2) (Context s) @
      [\<lparr>Role = ''user'', Content = t\<rparr>, \<lparr>Role = ''assistant'', Content = r\<rparr>]"
    unfolding ctx by (rule last_n_two [OF two])
  have caches: "LastUser ?s' = t \<and> LastAssistant ?s' = r"
    by (simp add: assistant_turn_def user_turn_def)
  from run obtain cs where cs: "ProcessAudio orch s audio =
      Inr ((t, [], Some (WrapError ''TTS failed: '' e)), ?s', cs)"
    by blast
  have cause: "Unwrap (WrapError ''TTS failed: '' e) = Some e"
    by simp
  from cs cause ctx tail caches show ?thesis
    by blast
qed

theorem C4_failed_synthesis_keeps_turns_witness:
  "2 \<le> MaxMessages (NewConversationSession ''test_user'') \<and>
   stt_Transcribe (stt (New (MockSTTProvider ''Hello'' None) (MockLLMProvider ''Hi there!'' None)
       (MockTTSProvider [] (Some (ErrorString ''tts down'')) None) DefaultConfig)) [0xFF, 0xFE]
     = (''Hello'', None) \<and>
   \<not> only_white_space ''Hello'' \<and>
   (\<exists>s' cs. ProcessAudio (New (MockSTTProvider ''Hello'' None) (MockLLMProvider ''Hi there!'' None)
       (MockTTSProvider [] (Some (ErrorString ''tts down'')) None) DefaultConfig)
     (NewConversationSession ''test_user'') [0xFF, 0xFE] =
       Inr ((''Hello'', [], Some (WrapError ''TTS failed: '' (ErrorString ''tts down''))), s', cs) \<and>
     Context s' = [\<lparr>Role = ''user'', Content = ''Hello''\<rparr>,
                   \<lparr>Role = ''assistant'', Content = ''Hi there!''\<rparr>])"
proof -
  let ?orch = "New (MockSTTProvider ''Hello'' None) (MockLLMProvider ''Hi there!'' None)
       (MockTTSProvider [] (Some (ErrorString ''tts down'')) None) DefaultConfig"
  let ?s = "NewConversationSession ''test_user''"
  have window: "2 \<le> MaxMessages ?s"
    by (simp add: NewConversationSession_def)
  have stt: "stt_Transcribe (stt ?orch) [0xFF, 0xFE] = (''Hello'', None)"
    by (simp add: New_def MockSTTProvider_def)
  have nonblank: "\<not> only_white_space ''Hello''"
    by (simp add: match_width_def white_space_utf8_def)
  have llm: "llm_Complete (llm ?orch)
      (last_n (nat (MaxMessages ?s)) (Context ?s @ [\<lparr>Role = ''user'', Content = ''Hello''\<rparr>]))
      = (''Hi there!'', None)"
    by (simp add: New_def MockLLMProvider_def)
  have tts: "tts_Synthesize (tts ?orch) ''Hi there!'' (CurrentVoice ?s)
      = ([], Some (ErrorString ''tts down''))"
    by (simp add: New_def MockTTSProvider_def)
  from C4_failed_synthesis_keeps_turns [OF window stt nonblank llm tts]
  obtain s' cs where run: "ProcessAudio ?orch ?s [0xFF, 0xFE] =
        Inr ((''Hello'', [], Some (WrapError ''TTS failed: '' (ErrorString ''tts down''))), s', cs)"
      "Context s' = last_n (nat (MaxMessages ?s))
         (Context ?s @ [\<lparr>Role = ''user'', Content = ''Hello''\<rparr>,
                        \<lparr>Role = ''assistant'', Content = ''Hi there!''\<rparr>])"
    by blast
  from run(2) have "Context s' = [\<lparr>Role = ''user'', Content = ''Hello''\<rparr>,
                   \<lparr>Role = ''assistant'', Content = ''Hi there!''\<rparr>]"
    by (simp add: NewConversationSession_def last_n_def)
  with window stt nonblank run(1) show ?thesis
    by blast
qed

section \<open>Properties of the detector\<close>

declare rms_loop.simps [simp del]

lemma calculateRMS_empty: "calculateRMS rnd [] = Fin 0"
  by (simp add: calculateRMS_def)

lemma calculateRMS_single: "calculateRMS rnd [b] = NaN"
  by (simp add: calculateRMS_def rms_loop.simps [of rnd "[b]" 0] inf_of_sign_def)

lemma effectiveThreshold_fields:
  "\<exists>nf. fst (effectiveThreshold rnd v rms) = v\<lparr>noiseFloor := nf\<rparr>"
proof (cases "adaptiveMode v")
  case False
  then have "fst (effectiveThreshold rnd v rms) = v\<lparr>noiseFloor := noiseFloor v\<rparr>"
    by (simp add: effectiveThreshold_def)
  then show ?thesis
    by blast
next
  case True
  show ?thesis
  proof (cases "f_lt rms (noiseFloor v)")
    case True
    with \<open>adaptiveMode v\<close> have "fst (effectiveThreshold rnd v rms) = v\<lparr>noiseFloor := rms\<rparr>"
      by (simp add: effectiveThreshold_def Let_def)
    then show ?thesis
      by blast
  next
    case False
    show ?thesis
    proof (cases "\<not> isSpeaking v \<and> f_lt rms (f_mul rnd (threshold v) (Fin 2))")
      case True
      with \<open>adaptiveMode v\<close> \<open>\<not> f_lt rms (noiseFloor v)\<close>
      have "fst (effectiveThreshold rnd v rms) =
          v\<lparr>noiseFloor := f_add rnd (f_mul rnd (f_sub rnd (Fin 1) (alpha v)) (noiseFloor v))
                                    (f_mul rnd (alpha v) rms)\<rparr>"
        by (simp add: effectiveThreshold_def Let_def)
      then show ?thesis
        by blast
    next
      case False
      with \<open>adaptiveMode v\<close> \<open>\<not> f_lt rms (noiseFloor v)\<close>
      have "fst (effectiveThreshold rnd v rms) = v\<lparr>noiseFloor := noiseFloor v\<rparr>"
        by (auto simp: effectiveThreshold_def Let_def)
      then show ?thesis
        by blast
    qed
  qed
qed

lemma Process_lastRMS: "lastRMS (snd (Process rnd v chunk now)) = calculateRMS rnd chunk"
proof -
  obtain nf where nf: "fst (effectiveThreshold rnd (v\<lparr>lastRMS := calculateRMS rnd chunk\<rparr>)
      (calculateRMS rnd chunk)) = v\<lparr>lastRMS := calculateRMS rnd chunk, noiseFloor := nf\<rparr>"
    using effectiveThreshold_fields [of rnd "v\<lparr>lastRMS := calculateRMS rnd chunk\<rparr>" "calculateRMS rnd chunk"]
    by auto
  obtain e where e: "snd (effectiveThreshold rnd (v\<lparr>lastRMS := calculateRMS rnd chunk\<rparr>)
      (calculateRMS rnd chunk)) = e"
    by blast
  have split: "effectiveThreshold rnd (v\<lparr>lastRMS := calculateRMS rnd chunk\<rparr>) (calculateRMS rnd chunk)
      = (v\<lparr>lastRMS := calculateRMS rnd chunk, noiseFloor := nf\<rparr>, e)"
    using nf e by (simp add: prod_eq_iff)
  show ?thesis
    by (simp add: Process_def Let_def split)
qed

lemma Process_no_error: "snd (fst (Process rnd v chunk now)) = None"
  by (simp add: Process_def Let_def split: prod.splits)

text \<open>
  C8 as stated fails: \<^verbatim>\<open>Reset\<close> does not touch the noise floor. A new detector that
  has processed one empty frame has noise floor 0, and keeps it through \<^verbatim>\<open>Reset\<close>,
  while a new detector has 0.005.
\<close>

theorem C8_counterexample:
  "noiseFloor (Reset (snd (Process Fin (NewRMSVAD (Fin (1 / 50)) 500000000) [] 62135596800010000000))) = Fin 0 \<and>
   noiseFloor (NewRMSVAD (Fin (1 / 50)) 500000000) = Fin (5 / 1000) \<and>
   Reset (snd (Process Fin (NewRMSVAD (Fin (1 / 50)) 500000000) [] 62135596800010000000))
     \<noteq> NewRMSVAD (Fin (1 / 50)) 500000000"
proof -
  have after: "noiseFloor (Reset (snd (Process Fin (NewRMSVAD (Fin (1 / 50)) 500000000) [] 62135596800010000000))) = Fin 0"
    by (simp add: Process_def calculateRMS_empty effectiveThreshold_def NewRMSVAD_def Reset_def
        f_gt_def Let_def)
  have fresh: "noiseFloor (NewRMSVAD (Fin (1 / 50)) 500000000) = Fin (5 / 1000)"
    by (simp add: NewRMSVAD_def)
  from after fresh
  have "Reset (snd (Process Fin (NewRMSVAD (Fin (1 / 50)) 500000000) [] 62135596800010000000))
     \<noteq> NewRMSVAD (Fin (1 / 50)) 500000000"
    by auto
  with after fresh show ?thesis
    by blast
qed

text \<open>
  C8, amended. \<^verbatim>\<open>Reset\<close> returns the detector to the not-speaking state: the
  speaking flag is false, the consecutive-frame counter is zero and the silence timer is
  unset. The threshold, the silence limit, the adaptive mode, the noise floor, the
  smoothing coefficient, the confirmation count and the last frame energy keep their
  values. So the result equals a newly constructed detector with the same threshold and
  silence limit exactly when those kept fields still have their initial values; on a new
  detector \<^verbatim>\<open>Reset\<close> changes nothing.
\<close>

theorem C8_Reset_clears_speaking_state:
  "isSpeaking (Reset v) = False \<and> consecutiveFrames (Reset v) = 0 \<and>
   IsZero (silenceStart (Reset v)) \<and>
   threshold (Reset v) = threshold v \<and> silenceLimit (Reset v) = silenceLimit v \<and>
   adaptiveMode (Reset v) = adaptiveMode v \<and> noiseFloor (Reset v) = noiseFloor v \<and>
   alpha (Reset v) = alpha v \<and> minConfirmed (Reset v) = minConfirmed v \<and>
   lastRMS (Reset v) = lastRMS v \<and>
   (Reset v = NewRMSVAD (threshold v) (silenceLimit v)) =
     (adaptiveMode v \<and> noiseFloor v = Fin (5 / 1000) \<and> alpha v = Fin (5 / 100) \<and>
      minConfirmed v = 7 \<and> lastRMS v = Fin 0) \<and>
   Reset (NewRMSVAD thr limit) = NewRMSVAD thr limit"
  by (cases v) (auto simp: Reset_def NewRMSVAD_def IsZero_def)

theorem C8_Reset_clears_speaking_state_witness:
  "isSpeaking (Reset (snd (Process Fin (NewRMSVAD (Fin (1 / 50)) 500000000) [] 62135596800010000000))) = False \<and>
   consecutiveFrames (Reset (snd (Process Fin (NewRMSVAD (Fin (1 / 50)) 500000000) [] 62135596800010000000))) = 0 \<and>
   noiseFloor (Reset (snd (Process Fin (NewRMSVAD (Fin (1 / 50)) 500000000) [] 62135596800010000000))) = Fin 0"
  using C8_Reset_clears_speaking_state
    [of "snd (Process Fin (NewRMSVAD (Fin (1 / 50)) 500000000) [] 62135596800010000000)"]
  by (simp add: Process_def calculateRMS_empty effectiveThreshold_def NewRMSVAD_def
      f_gt_def Let_def)

text \<open>
  C9. \<^verbatim>\<open>Clone\<close> copies the threshold, the silence limit and the confirmation count;
  every other field of the clone has its zero value (adaptive mode off, noise floor 0,
  smoothing coefficient 0, not speaking, counter 0, no timer, last energy 0), whatever
  the adaptive settings and the dynamic state of the original. Through pointers, the
  clone is a new object: the original and every other detector of the store are as
  before, and no method called on the clone changes them.
\<close>

theorem C9_Clone_independent:
  "threshold (Clone v) = threshold v \<and> silenceLimit (Clone v) = silenceLimit v \<and>
   minConfirmed (Clone v) = minConfirmed v \<and>
   adaptiveMode (Clone v) = False \<and> noiseFloor (Clone v) = Fin 0 \<and> alpha (Clone v) = Fin 0 \<and>
   isSpeaking (Clone v) = False \<and> consecutiveFrames (Clone v) = 0 \<and>
   silenceStart (Clone v) = zero_Time \<and> lastRMS (Clone v) = Fin 0 \<and>
   Clone (v\<lparr>adaptiveMode := am, noiseFloor := nf, alpha := al, isSpeaking := sp,
            silenceStart := ss, consecutiveFrames := cf, lastRMS := lr\<rparr>) = Clone v \<and>
   (p < length st \<longrightarrow>
      (\<exists>st' q. Clone_ptr st p = Inr (st', q) \<and> q \<noteq> p \<and> q = length st \<and>
         st' ! q = Clone (st ! p) \<and> (\<forall>i < length st. st' ! i = st ! i) \<and>
         (\<forall>method. \<exists>st''. call_ptr st' q method = Inr st'' \<and>
            st'' ! q = method (Clone (st ! p)) \<and> (\<forall>i < length st. st'' ! i = st ! i))))"
proof -
  have fields: "threshold (Clone v) = threshold v \<and> silenceLimit (Clone v) = silenceLimit v \<and>
      minConfirmed (Clone v) = minConfirmed v \<and>
      adaptiveMode (Clone v) = False \<and> noiseFloor (Clone v) = Fin 0 \<and> alpha (Clone v) = Fin 0 \<and>
      isSpeaking (Clone v) = False \<and> consecutiveFrames (Clone v) = 0 \<and>
      silenceStart (Clone v) = zero_Time \<and> lastRMS (Clone v) = Fin 0"
    by (simp add: Clone_def)
  have regardless: "Clone (v\<lparr>adaptiveMode := am, noiseFloor := nf, alpha := al, isSpeaking := sp,
      silenceStart := ss, consecutiveFrames := cf, lastRMS := lr\<rparr>) = Clone v"
    by (simp add: Clone_def)
  have store: "p < length st \<longrightarrow>
      (\<exists>st' q. Clone_ptr st p = Inr (st', q) \<and> q \<noteq> p \<and> q = length st \<and>
         st' ! q = Clone (st ! p) \<and> (\<forall>i < length st. st' ! i = st ! i) \<and>
         (\<forall>method. \<exists>st''. call_ptr st' q method = Inr st'' \<and>
            st'' ! q = method (Clone (st ! p)) \<and> (\<forall>i < length st. st'' ! i = st ! i)))"
    by (auto simp: Clone_ptr_def call_ptr_def nth_append)
  from fields regardless store show ?thesis
    by blast
qed

theorem C9_Clone_independent_witness:
  "(0::nat) < length [SetThreshold (NewRMSVAD (Fin (1 / 50)) 500000000) (Fin (1 / 10))] \<and>
   Clone_ptr [SetThreshold (NewRMSVAD (Fin (1 / 50)) 500000000) (Fin (1 / 10))] 0 =
     Inr ([SetThreshold (NewRMSVAD (Fin (1 / 50)) 500000000) (Fin (1 / 10)),
           \<lparr>threshold = Fin (1 / 10), silenceLimit = 500000000, isSpeaking = False,
            silenceStart = zero_Time, adaptiveMode = False, noiseFloor = Fin 0, alpha = Fin 0,
            consecutiveFrames = 0, minConfirmed = 7, lastRMS = Fin 0\<rparr>], 1) \<and>
   adaptiveMode (Clone (NewRMSVAD (Fin (1 / 50)) 500000000)) = False \<and>
   adaptiveMode (NewRMSVAD (Fin (1 / 50)) 500000000) = True"
  using C9_Clone_independent
    [where v = "NewRMSVAD (Fin (1 / 50)) 500000000" and p = 0
       and st = "[SetThreshold (NewRMSVAD (Fin (1 / 50)) 500000000) (Fin (1 / 10))]"]
  by (simp add: Clone_ptr_def Clone_def SetThreshold_def NewRMSVAD_def)

lemma cap_bounds:
  assumes "e1 = Fin t \<or> f_gt e1 (Fin t)"
  shows "\<exists>e. (if f_gt e1 (Fin (3 / 10)) then Fin (3 / 10) else e1) = Fin e \<and>
           e \<le> 3 / 10 \<and> min t (3 / 10) \<le> e"
proof (cases e1)
  case NaN
  with assms show ?thesis
    by (simp add: f_gt_def)
next
  case NInf
  with assms show ?thesis
    by (simp add: f_gt_def)
next
  case (Fin a)
  with assms have le: "t \<le> a"
    by (auto simp: f_gt_def)
  show ?thesis
  proof (cases "3 / 10 < a")
    case True
    with Fin have "(if f_gt e1 (Fin (3 / 10)) then Fin (3 / 10) else e1) = Fin (3 / 10)"
      by (simp add: f_gt_def)
    then show ?thesis
      by (intro exI [of _ "3 / 10"]) simp
  next
    case False
    with Fin have "(if f_gt e1 (Fin (3 / 10)) then Fin (3 / 10) else e1) = Fin a"
      by (simp add: f_gt_def)
    with False le show ?thesis
      by simp
  qed
next
  case PInf
  then have "(if f_gt e1 (Fin (3 / 10)) then Fin (3 / 10) else e1) = Fin (3 / 10)"
    by (simp add: f_gt_def)
  then show ?thesis
    by (intro exI [of _ "3 / 10"]) simp
qed

text \<open>
  C2 as stated fails when the configured threshold is above 0.3: the cap then puts the
  effective threshold below the configured one. A new detector with threshold 0.5
  classifies its first frame against 0.3.
\<close>

theorem C2_counterexample:
  "adaptiveMode (NewRMSVAD (Fin (1 / 2)) 500000000) \<and>
   snd (effectiveThreshold Fin ((NewRMSVAD (Fin (1 / 2)) 500000000)\<lparr>lastRMS := calculateRMS Fin []\<rparr>)
          (calculateRMS Fin [])) = Fin (3 / 10) \<and>
   f_lt (snd (effectiveThreshold Fin ((NewRMSVAD (Fin (1 / 2)) 500000000)\<lparr>lastRMS := calculateRMS Fin []\<rparr>)
          (calculateRMS Fin [])))
        (threshold (NewRMSVAD (Fin (1 / 2)) 500000000))"
  by (simp add: effectiveThreshold_def calculateRMS_empty NewRMSVAD_def f_gt_def Let_def)

text \<open>
  C2, amended. With adaptive mode on and a finite configured threshold \<open>t\<close>, the effective
  threshold of every frame, in every state, is a finite value that is at most 0.3 and at
  least \<open>min t 0.3\<close>: it never exceeds 0.3, and it never falls below the configured
  threshold when that threshold is itself at most 0.3.
\<close>

theorem C2_effective_threshold_bounds:
  assumes "adaptiveMode v"
    and "threshold v = Fin t"
  shows "\<exists>e. snd (effectiveThreshold rnd v rms) = Fin e \<and> e \<le> 3 / 10 \<and> min t (3 / 10) \<le> e \<and>
           \<not> f_gt (snd (effectiveThreshold rnd v rms)) (Fin (3 / 10)) \<and>
           (t \<le> 3 / 10 \<longrightarrow> \<not> f_lt (snd (effectiveThreshold rnd v rms)) (threshold v))"
proof -
  have keep: "v = v\<lparr>noiseFloor := noiseFloor v\<rparr>"
    by simp
  have "\<exists>nf. (if f_lt rms (noiseFloor v) then v\<lparr>noiseFloor := rms\<rparr>
       else if \<not> isSpeaking v \<and> f_lt rms (f_mul rnd (threshold v) (Fin 2))
       then v\<lparr>noiseFloor := f_add rnd (f_mul rnd (f_sub rnd (Fin 1) (alpha v)) (noiseFloor v))
                                 (f_mul rnd (alpha v) rms)\<rparr>
       else v) = v\<lparr>noiseFloor := nf\<rparr>"
    using keep by (metis (full_types))
  then obtain nf where v1: "(if f_lt rms (noiseFloor v) then v\<lparr>noiseFloor := rms\<rparr>
       else if \<not> isSpeaking v \<and> f_lt rms (f_mul rnd (threshold v) (Fin 2))
       then v\<lparr>noiseFloor := f_add rnd (f_mul rnd (f_sub rnd (Fin 1) (alpha v)) (noiseFloor v))
                                 (f_mul rnd (alpha v) rms)\<rparr>
       else v) = v\<lparr>noiseFloor := nf\<rparr>"
    by blast
  define e1 where "e1 = (if f_gt (f_mul rnd nf (Fin 2)) (Fin t) then f_mul rnd nf (Fin 2) else Fin t)"
  have eff: "snd (effectiveThreshold rnd v rms) = (if f_gt e1 (Fin (3 / 10)) then Fin (3 / 10) else e1)"
    using assms by (simp add: effectiveThreshold_def Let_def v1 e1_def)
  have "e1 = Fin t \<or> f_gt e1 (Fin t)"
    by (simp add: e1_def)
  from cap_bounds [OF this] obtain e
    where e: "(if f_gt e1 (Fin (3 / 10)) then Fin (3 / 10) else e1) = Fin e"
      "e \<le> 3 / 10" "min t (3 / 10) \<le> e"
    by blast
  from e have "snd (effectiveThreshold rnd v rms) = Fin e \<and> e \<le> 3 / 10 \<and> min t (3 / 10) \<le> e \<and>
      \<not> f_gt (snd (effectiveThreshold rnd v rms)) (Fin (3 / 10)) \<and>
      (t \<le> 3 / 10 \<longrightarrow> \<not> f_lt (snd (effectiveThreshold rnd v rms)) (threshold v))"
    unfolding eff assms(2) by (auto simp: f_gt_def)
  then show ?thesis
    by blast
qed

theorem C2_effective_threshold_bounds_witness:
  "adaptiveMode (NewRMSVAD (Fin (1 / 50)) 500000000) \<and>
   threshold (NewRMSVAD (Fin (1 / 50)) 500000000) = Fin (1 / 50) \<and>
   (1 / 50 :: real) \<le> 3 / 10 \<and>
   snd (effectiveThreshold Fin (NewRMSVAD (Fin (1 / 50)) 500000000) (Fin (1 / 2))) = Fin (1 / 50) \<and>
   \<not> f_lt (snd (effectiveThreshold Fin (NewRMSVAD (Fin (1 / 50)) 500000000) (Fin (1 / 2))))
          (threshold (NewRMSVAD (Fin (1 / 50)) 500000000))"
proof -
  let ?v = "NewRMSVAD (Fin (1 / 50)) 500000000"
  have mode: "adaptiveMode ?v"
    by (simp add: NewRMSVAD_def)
  have thr: "threshold ?v = Fin (1 / 50)"
    by (simp add: NewRMSVAD_def)
  have small: "(1 / 50 :: real) \<le> 3 / 10"
    by simp
  from C2_effective_threshold_bounds [OF mode thr, of Fin "Fin (1 / 2)"] small
  have keep: "\<not> f_lt (snd (effectiveThreshold Fin ?v (Fin (1 / 2)))) (threshold ?v)"
    by blast
  have val: "snd (effectiveThreshold Fin ?v (Fin (1 / 2))) = Fin (1 / 50)"
    by (simp add: effectiveThreshold_def NewRMSVAD_def f_gt_def Let_def)
  from mode thr small val keep show ?thesis
    by blast
qed

text \<open>
  An odd trailing byte is ignored when at least one complete sample precedes it.
\<close>

lemma rms_loop_trailing_byte:
  assumes "even (length chunk)" and "even i"
  shows "rms_loop rnd (chunk @ [b]) i acc = rms_loop rnd chunk i acc"
  using assms
proof (induction rnd chunk i acc rule: rms_loop.induct)
  case (1 rnd chunk i acc)
  show ?case
  proof (cases "int i < int (length chunk) - 1")
    case True
    then have inside: "i < length chunk" "i + 1 < length chunk"
      by simp_all
    from True have more: "int i < int (length (chunk @ [b])) - 1"
      by simp
    from "1.prems" have ev: "even (i + 2)"
      by simp
    have step: "rms_loop rnd (chunk @ [b]) (i + 2)
        (f_add rnd acc (f_mul rnd
           (f_div rnd (Fin (real_of_int (sint ((ucast (chunk ! i) :: 16 word) OR
              push_bit 8 (ucast (chunk ! (i + 1)) :: 16 word))))) (Fin 32768))
           (f_div rnd (Fin (real_of_int (sint ((ucast (chunk ! i) :: 16 word) OR
              push_bit 8 (ucast (chunk ! (i + 1)) :: 16 word))))) (Fin 32768))))
      = rms_loop rnd chunk (i + 2)
        (f_add rnd acc (f_mul rnd
           (f_div rnd (Fin (real_of_int (sint ((ucast (chunk ! i) :: 16 word) OR
              push_bit 8 (ucast (chunk ! (i + 1)) :: 16 word))))) (Fin 32768))
           (f_div rnd (Fin (real_of_int (sint ((ucast (chunk ! i) :: 16 word) OR
              push_bit 8 (ucast (chunk ! (i + 1)) :: 16 word))))) (Fin 32768))))"
      using "1.IH" [OF True refl refl "1.prems"(1) ev] by (simp add: Let_def)
    show ?thesis
      using True more inside step
      by (subst rms_loop.simps, subst (2) rms_loop.simps) (simp add: Let_def nth_append)
  next
    case False
    with "1.prems" have "\<not> int i < int (length (chunk @ [b])) - 1"
      by (simp, presburger)
    with False show ?thesis
      by (subst rms_loop.simps, subst (2) rms_loop.simps) simp
  qed
qed

lemma calculateRMS_trailing_byte:
  assumes "even (length chunk)" and "chunk \<noteq> []"
  shows "calculateRMS rnd (chunk @ [b]) = calculateRMS rnd chunk"
proof -
  from assms(1) have "Suc (length chunk) div 2 = length chunk div 2"
    by presburger
  with assms show ?thesis
    by (simp add: calculateRMS_def rms_loop_trailing_byte)
qed

lemma Process_trailing_byte:
  assumes "even (length chunk)" and "chunk \<noteq> []"
  shows "Process rnd v (chunk @ [b]) now = Process rnd v chunk now"
  by (simp add: Process_def calculateRMS_trailing_byte [OF assms])

text \<open>
  C7. A frame of one byte is an odd-length frame whose truncation to complete samples is
  the empty frame. \<^verbatim>\<open>calculateRMS\<close> returns 0 for the empty frame, but for one
  byte it passes the length check, adds no sample and divides the zero sum by
  \<open>len / 2 = 0\<close>: the energy is NaN. \<^verbatim>\<open>Process\<close> still returns without an error, but
  the detector it leaves differs from the one the empty frame leaves: the last energy is
  NaN instead of 0, and a new detector keeps its noise floor 0.005 instead of taking 0.
\<close>

theorem C7_one_byte_frame_energy_is_NaN:
  "calculateRMS rnd [] = Fin 0 \<and> calculateRMS rnd [b] = NaN \<and>
   snd (fst (Process rnd v [b] now)) = None \<and>
   lastRMS (snd (Process rnd v [b] now)) = NaN \<and>
   lastRMS (snd (Process rnd v [] now)) = Fin 0 \<and>
   snd (Process rnd v [b] now) \<noteq> snd (Process rnd v [] now) \<and>
   noiseFloor (snd (Process rnd (NewRMSVAD (Fin (1 / 50)) limit) [b] now)) = Fin (5 / 1000) \<and>
   noiseFloor (snd (Process rnd (NewRMSVAD (Fin (1 / 50)) limit) [] now)) = Fin 0"
proof -
  have one: "lastRMS (snd (Process rnd v [b] now)) = NaN"
    by (simp add: Process_lastRMS calculateRMS_single)
  have none: "lastRMS (snd (Process rnd v [] now)) = Fin 0"
    by (simp add: Process_lastRMS calculateRMS_empty)
  from one none have differ: "snd (Process rnd v [b] now) \<noteq> snd (Process rnd v [] now)"
    by auto
  have floor_one: "noiseFloor (snd (Process rnd (NewRMSVAD (Fin (1 / 50)) limit) [b] now)) = Fin (5 / 1000)"
    by (simp add: Process_def calculateRMS_single effectiveThreshold_def NewRMSVAD_def
        f_gt_def Let_def split: prod.splits)
  have floor_none: "noiseFloor (snd (Process rnd (NewRMSVAD (Fin (1 / 50)) limit) [] now)) = Fin 0"
    by (simp add: Process_def calculateRMS_empty effectiveThreshold_def NewRMSVAD_def
        f_gt_def Let_def split: prod.splits)
  from one none differ floor_one floor_none show ?thesis
    by (simp add: calculateRMS_empty calculateRMS_single Process_no_error)
qed

lemma effectiveThreshold_split:
  "\<exists>nf e. effectiveThreshold rnd v rms = (v\<lparr>noiseFloor := nf\<rparr>, e)"
proof -
  from effectiveThreshold_fields [of rnd v rms]
  obtain nf where "fst (effectiveThreshold rnd v rms) = v\<lparr>noiseFloor := nf\<rparr>"
    by blast
  then have "effectiveThreshold rnd v rms = (v\<lparr>noiseFloor := nf\<rparr>, snd (effectiveThreshold rnd v rms))"
    by (simp add: prod_eq_iff)
  then show ?thesis
    by blast
qed

lemma Process_loud_pending:
  assumes "exceeds rnd v chunk" and "\<not> isSpeaking v"
    and "consecutiveFrames v + 1 < minConfirmed v"
  shows "\<exists>nf. Process rnd v chunk now =
    ((None, None), v\<lparr>lastRMS := calculateRMS rnd chunk, noiseFloor := nf,
                      consecutiveFrames := consecutiveFrames v + 1\<rparr>)"
proof -
  from effectiveThreshold_split [of rnd "v\<lparr>lastRMS := calculateRMS rnd chunk\<rparr>" "calculateRMS rnd chunk"]
  obtain nf e where eff: "effectiveThreshold rnd (v\<lparr>lastRMS := calculateRMS rnd chunk\<rparr>)
      (calculateRMS rnd chunk) = (v\<lparr>lastRMS := calculateRMS rnd chunk, noiseFloor := nf\<rparr>, e)"
    by auto
  from assms(1) eff have "f_gt (calculateRMS rnd chunk) e"
    by (simp add: exceeds_def Let_def)
  with assms(2,3) eff have "Process rnd v chunk now =
    ((None, None), v\<lparr>lastRMS := calculateRMS rnd chunk, noiseFloor := nf,
                      consecutiveFrames := consecutiveFrames v + 1\<rparr>)"
    by (simp add: Process_def Let_def)
  then show ?thesis
    by blast
qed

lemma Process_loud_start:
  assumes "exceeds rnd v chunk" and "\<not> isSpeaking v"
    and "minConfirmed v \<le> consecutiveFrames v + 1"
  shows "\<exists>nf. Process rnd v chunk now =
    ((Some \<lparr>Type = VADSpeechStart, Timestamp = UnixMilli now\<rparr>, None),
     v\<lparr>lastRMS := calculateRMS rnd chunk, noiseFloor := nf,
       consecutiveFrames := consecutiveFrames v + 1, isSpeaking := True\<rparr>)"
proof -
  from effectiveThreshold_split [of rnd "v\<lparr>lastRMS := calculateRMS rnd chunk\<rparr>" "calculateRMS rnd chunk"]
  obtain nf e where eff: "effectiveThreshold rnd (v\<lparr>lastRMS := calculateRMS rnd chunk\<rparr>)
      (calculateRMS rnd chunk) = (v\<lparr>lastRMS := calculateRMS rnd chunk, noiseFloor := nf\<rparr>, e)"
    by auto
  from assms(1) eff have "f_gt (calculateRMS rnd chunk) e"
    by (simp add: exceeds_def Let_def)
  with assms(2,3) eff have "Process rnd v chunk now =
    ((Some \<lparr>Type = VADSpeechStart, Timestamp = UnixMilli now\<rparr>, None),
     v\<lparr>lastRMS := calculateRMS rnd chunk, noiseFloor := nf,
       consecutiveFrames := consecutiveFrames v + 1, isSpeaking := True\<rparr>)"
    by (simp add: Process_def Let_def)
  then show ?thesis
    by blast
qed

lemma Process_loud_speaking:
  assumes "exceeds rnd v chunk" and "isSpeaking v"
  shows "\<exists>nf. Process rnd v chunk now =
    ((None, None), v\<lparr>lastRMS := calculateRMS rnd chunk, noiseFloor := nf,
                      consecutiveFrames := consecutiveFrames v + 1, silenceStart := zero_Time\<rparr>)"
proof -
  from effectiveThreshold_split [of rnd "v\<lparr>lastRMS := calculateRMS rnd chunk\<rparr>" "calculateRMS rnd chunk"]
  obtain nf e where eff: "effectiveThreshold rnd (v\<lparr>lastRMS := calculateRMS rnd chunk\<rparr>)
      (calculateRMS rnd chunk) = (v\<lparr>lastRMS := calculateRMS rnd chunk, noiseFloor := nf\<rparr>, e)"
    by auto
  from assms(1) eff have "f_gt (calculateRMS rnd chunk) e"
    by (simp add: exceeds_def Let_def)
  with assms(2) eff have "Process rnd v chunk now =
    ((None, None), v\<lparr>lastRMS := calculateRMS rnd chunk, noiseFloor := nf,
                      consecutiveFrames := consecutiveFrames v + 1, silenceStart := zero_Time\<rparr>)"
    by (simp add: Process_def Let_def)
  then show ?thesis
    by blast
qed

lemma Process_quiet_idle:
  assumes "\<not> exceeds rnd v chunk" and "\<not> isSpeaking v"
  shows "\<exists>nf. Process rnd v chunk now =
    ((Some \<lparr>Type = VADSilence, Timestamp = UnixMilli now\<rparr>, None),
     v\<lparr>lastRMS := calculateRMS rnd chunk, noiseFloor := nf, consecutiveFrames := 0\<rparr>)"
proof -
  from effectiveThreshold_split [of rnd "v\<lparr>lastRMS := calculateRMS rnd chunk\<rparr>" "calculateRMS rnd chunk"]
  obtain nf e where eff: "effectiveThreshold rnd (v\<lparr>lastRMS := calculateRMS rnd chunk\<rparr>)
      (calculateRMS rnd chunk) = (v\<lparr>lastRMS := calculateRMS rnd chunk, noiseFloor := nf\<rparr>, e)"
    by auto
  from assms(1) eff have "\<not> f_gt (calculateRMS rnd chunk) e"
    by (simp add: exceeds_def Let_def)
  with assms(2) eff have "Process rnd v chunk now =
    ((Some \<lparr>Type = VADSilence, Timestamp = UnixMilli now\<rparr>, None),
     v\<lparr>lastRMS := calculateRMS rnd chunk, noiseFloor := nf, consecutiveFrames := 0\<rparr>)"
    by (simp add: Process_def Let_def)
  then show ?thesis
    by blast
qed

lemma ProcessFrames_Cons_events:
  "fst (ProcessFrames rnd v ((chunk, now) # frames)) =
     fst (fst (Process rnd v chunk now)) #
     fst (ProcessFrames rnd (snd (Process rnd v chunk now)) frames)"
  by (simp split: prod.splits)

lemma quiet_run_is_silence:
  assumes "\<not> isSpeaking v"
    and "every_frame (\<lambda>u c. \<not> exceeds rnd u c) rnd v frames"
  shows "fst (ProcessFrames rnd v frames) =
           map (\<lambda>frame. Some \<lparr>Type = VADSilence, Timestamp = UnixMilli (snd frame)\<rparr>) frames"
  using assms
proof (induction frames arbitrary: v)
  case Nil
  show ?case by simp
next
  case (Cons frame frames)
  obtain chunk now where frame: "frame = (chunk, now)"
    by (cases frame)
  from Cons.prems frame have quiet: "\<not> exceeds rnd v chunk"
    and rest: "every_frame (\<lambda>u c. \<not> exceeds rnd u c) rnd (snd (Process rnd v chunk now)) frames"
    by simp_all
  from Process_quiet_idle [OF quiet Cons.prems(1), of now]
  obtain nf where step: "Process rnd v chunk now =
      ((Some \<lparr>Type = VADSilence, Timestamp = UnixMilli now\<rparr>, None),
       v\<lparr>lastRMS := calculateRMS rnd chunk, noiseFloor := nf, consecutiveFrames := 0\<rparr>)"
    by blast
  let ?v' = "v\<lparr>lastRMS := calculateRMS rnd chunk, noiseFloor := nf, consecutiveFrames := 0\<rparr>"
  from Cons.prems(1) have idle: "\<not> isSpeaking ?v'"
    by simp
  from rest step have rest': "every_frame (\<lambda>u c. \<not> exceeds rnd u c) rnd ?v' frames"
    by simp
  from Cons.IH [OF idle rest'] frame step show ?case
    by (simp add: ProcessFrames_Cons_events del: ProcessFrames.simps)
qed

lemma speaking_run_is_mute:
  assumes "isSpeaking v"
    and "every_frame (exceeds rnd) rnd v frames"
  shows "fst (ProcessFrames rnd v frames) = replicate (length frames) None"
  using assms
proof (induction frames arbitrary: v)
  case Nil
  show ?case by simp
next
  case (Cons frame frames)
  obtain chunk now where frame: "frame = (chunk, now)"
    by (cases frame)
  from Cons.prems frame have loud: "exceeds rnd v chunk"
    and rest: "every_frame (exceeds rnd) rnd (snd (Process rnd v chunk now)) frames"
    by simp_all
  from Process_loud_speaking [OF loud Cons.prems(1), of now]
  obtain nf where step: "Process rnd v chunk now =
      ((None, None), v\<lparr>lastRMS := calculateRMS rnd chunk, noiseFloor := nf,
                        consecutiveFrames := consecutiveFrames v + 1, silenceStart := zero_Time\<rparr>)"
    by blast
  let ?v' = "v\<lparr>lastRMS := calculateRMS rnd chunk, noiseFloor := nf,
               consecutiveFrames := consecutiveFrames v + 1, silenceStart := zero_Time\<rparr>"
  from Cons.prems(1) have speaking: "isSpeaking ?v'"
    by simp
  from rest step have rest': "every_frame (exceeds rnd) rnd ?v' frames"
    by simp
  from Cons.IH [OF speaking rest'] frame step show ?case
    by (simp add: ProcessFrames_Cons_events del: ProcessFrames.simps)
qed

lemma loud_run_starts_once:
  assumes "\<not> isSpeaking v"
    and "minConfirmed v = consecutiveFrames v + 1 + int j"
    and "every_frame (exceeds rnd) rnd v frames"
    and "j < length frames"
  shows "fst (ProcessFrames rnd v frames) =
           replicate j None @
           [Some \<lparr>Type = VADSpeechStart, Timestamp = UnixMilli (snd (frames ! j))\<rparr>] @
           replicate (length frames - Suc j) None"
  using assms
proof (induction j arbitrary: v frames)
  case 0
  then obtain chunk now rest where frames: "frames = (chunk, now) # rest"
    by (cases frames) auto
  from "0.prems" frames have loud: "exceeds rnd v chunk"
    and more: "every_frame (exceeds rnd) rnd (snd (Process rnd v chunk now)) rest"
    by simp_all
  from "0.prems"(2) have reach: "minConfirmed v \<le> consecutiveFrames v + 1"
    by simp
  from Process_loud_start [OF loud "0.prems"(1) reach, of now]
  obtain nf where step: "Process rnd v chunk now =
      ((Some \<lparr>Type = VADSpeechStart, Timestamp = UnixMilli now\<rparr>, None),
       v\<lparr>lastRMS := calculateRMS rnd chunk, noiseFloor := nf,
         consecutiveFrames := consecutiveFrames v + 1, isSpeaking := True\<rparr>)"
    by blast
  let ?v' = "v\<lparr>lastRMS := calculateRMS rnd chunk, noiseFloor := nf,
               consecutiveFrames := consecutiveFrames v + 1, isSpeaking := True\<rparr>"
  have speaking: "isSpeaking ?v'"
    by simp
  from more step have more': "every_frame (exceeds rnd) rnd ?v' rest"
    by simp
  from speaking_run_is_mute [OF speaking more'] frames step show ?case
    by (simp add: ProcessFrames_Cons_events del: ProcessFrames.simps)
next
  case (Suc j)
  then obtain chunk now rest where frames: "frames = (chunk, now) # rest"
    by (cases frames) auto
  from Suc.prems frames have loud: "exceeds rnd v chunk"
    and more: "every_frame (exceeds rnd) rnd (snd (Process rnd v chunk now)) rest"
    by simp_all
  from Suc.prems(2) have pending: "consecutiveFrames v + 1 < minConfirmed v"
    by simp
  from Process_loud_pending [OF loud Suc.prems(1) pending, of now]
  obtain nf where step: "Process rnd v chunk now =
      ((None, None), v\<lparr>lastRMS := calculateRMS rnd chunk, noiseFloor := nf,
                        consecutiveFrames := consecutiveFrames v + 1\<rparr>)"
    by blast
  let ?v' = "v\<lparr>lastRMS := calculateRMS rnd chunk, noiseFloor := nf,
               consecutiveFrames := consecutiveFrames v + 1\<rparr>"
  from Suc.prems(1) have idle: "\<not> isSpeaking ?v'"
    by simp
  from Suc.prems(2) have count: "minConfirmed ?v' = consecutiveFrames ?v' + 1 + int j"
    by simp
  from more step have more': "every_frame (exceeds rnd) rnd ?v' rest"
    by simp
  from Suc.prems(4) frames have shorter: "j < length rest"
    by simp
  from Suc.IH [OF idle count more' shorter] frames step show ?case
    by (simp add: ProcessFrames_Cons_events del: ProcessFrames.simps)
qed

text \<open>
  C6. From any not-speaking detector, a sequence of frames none of which exceeds the
  effective threshold yields a Silence event for every frame, hence no SpeechStart.
  From a not-speaking detector with the frame counter at zero and a confirmation count
  \<open>minConfirmed \<ge> 1\<close> (a newly constructed detector has 7), a run of at least
  \<open>minConfirmed\<close> frames that all exceed the effective threshold yields no event on the
  first \<open>minConfirmed - 1\<close> frames, SpeechStart on frame number \<open>minConfirmed\<close>, stamped
  with that frame's clock reading, and no event on the frames after it.
\<close>

theorem C6_speech_start_after_confirmation:
  assumes "\<not> isSpeaking v"
  shows "(every_frame (\<lambda>u c. \<not> exceeds rnd u c) rnd v quiet \<longrightarrow>
            fst (ProcessFrames rnd v quiet) =
              map (\<lambda>frame. Some \<lparr>Type = VADSilence, Timestamp = UnixMilli (snd frame)\<rparr>) quiet \<and>
            (\<forall>ev \<in> set (fst (ProcessFrames rnd v quiet)). map_option Type ev \<noteq> Some VADSpeechStart)) \<and>
         (consecutiveFrames v = 0 \<and> 1 \<le> minConfirmed v \<and>
          every_frame (exceeds rnd) rnd v loud \<and> nat (minConfirmed v) \<le> length loud \<longrightarrow>
            fst (ProcessFrames rnd v loud) =
              replicate (nat (minConfirmed v) - 1) None @
              [Some \<lparr>Type = VADSpeechStart,
                     Timestamp = UnixMilli (snd (loud ! (nat (minConfirmed v) - 1)))\<rparr>] @
              replicate (length loud - nat (minConfirmed v)) None)"
proof (intro conjI impI)
  assume quiet: "every_frame (\<lambda>u c. \<not> exceeds rnd u c) rnd v quiet"
  from quiet_run_is_silence [OF assms quiet]
  show events: "fst (ProcessFrames rnd v quiet) =
      map (\<lambda>frame. Some \<lparr>Type = VADSilence, Timestamp = UnixMilli (snd frame)\<rparr>) quiet" .
  show "\<forall>ev \<in> set (fst (ProcessFrames rnd v quiet)). map_option Type ev \<noteq> Some VADSpeechStart"
    unfolding events by auto
next
  assume run: "consecutiveFrames v = 0 \<and> 1 \<le> minConfirmed v \<and>
      every_frame (exceeds rnd) rnd v loud \<and> nat (minConfirmed v) \<le> length loud"
  define j where "j = nat (minConfirmed v) - 1"
  from run have count: "minConfirmed v = consecutiveFrames v + 1 + int j"
    unfolding j_def by arith
  from run have enough: "j < length loud"
    unfolding j_def by arith
  from run have suc: "Suc j = nat (minConfirmed v)"
    unfolding j_def by arith
  from run have loud: "every_frame (exceeds rnd) rnd v loud"
    by simp
  from loud_run_starts_once [OF assms count loud enough]
  show "fst (ProcessFrames rnd v loud) =
      replicate (nat (minConfirmed v) - 1) None @
      [Some \<lparr>Type = VADSpeechStart,
             Timestamp = UnixMilli (snd (loud ! (nat (minConfirmed v) - 1)))\<rparr>] @
      replicate (length loud - nat (minConfirmed v)) None"
    unfolding suc unfolding j_def .
qed

lemma calculateRMS_half_scale: "calculateRMS Fin [0x00, 0x40] = Fin (1 / 2)"
proof -
  have root: "sqrt (1 / 4) = 1 / 2"
    by (rule real_sqrt_unique) (simp_all add: power2_eq_square)
  have "rms_loop Fin [0x00, 0x40] 0 (Fin 0) = Fin (1 / 4)"
    by (simp add: rms_loop.simps [of Fin "[0x00, 0x40]" 0]
        rms_loop.simps [of Fin "[0x00, 0x40]" "Suc (Suc 0)"] Let_def)
  with root show ?thesis
    by (simp add: calculateRMS_def)
qed

lemma every_frame_invariant:
  assumes "I v"
    and "\<And>u chunk now. I u \<Longrightarrow> (chunk, now) \<in> set frames \<Longrightarrow>
           P u chunk \<and> I (snd (Process rnd u chunk now))"
  shows "every_frame P rnd v frames"
  using assms
proof (induction frames arbitrary: v)
  case Nil
  show ?case by simp
next
  case (Cons frame frames)
  obtain chunk now where frame: "frame = (chunk, now)"
    by (cases frame)
  from Cons.prems(2) [OF Cons.prems(1), of chunk now] frame
  have here: "P v chunk" and next_I: "I (snd (Process rnd v chunk now))"
    by simp_all
  have step: "P u c \<and> I (snd (Process rnd u c n))" if "I u" and "(c, n) \<in> set frames" for u c n
    using Cons.prems(2) [OF that(1), of c n] that(2) by simp
  have "every_frame P rnd (snd (Process rnd v chunk now)) frames"
    using next_I step by (rule Cons.IH)
  with here frame show ?case
    by simp
qed

lemma Process_keeps_settings:
  "threshold (snd (Process rnd v chunk now)) = threshold v \<and>
   adaptiveMode (snd (Process rnd v chunk now)) = adaptiveMode v \<and>
   alpha (snd (Process rnd v chunk now)) = alpha v \<and>
   minConfirmed (snd (Process rnd v chunk now)) = minConfirmed v \<and>
   silenceLimit (snd (Process rnd v chunk now)) = silenceLimit v"
proof -
  from effectiveThreshold_split [of rnd "v\<lparr>lastRMS := calculateRMS rnd chunk\<rparr>" "calculateRMS rnd chunk"]
  obtain nf e where eff: "effectiveThreshold rnd (v\<lparr>lastRMS := calculateRMS rnd chunk\<rparr>)
      (calculateRMS rnd chunk) = (v\<lparr>lastRMS := calculateRMS rnd chunk, noiseFloor := nf\<rparr>, e)"
    by auto
  show ?thesis
    by (simp add: Process_def Let_def eff)
qed


lemma half_scale_frame_is_loud:
  assumes "adaptiveMode u" and "threshold u = Fin (1 / 50)" and "noiseFloor u = Fin (5 / 1000)"
  shows "exceeds Fin u [0x00, 0x40] \<and>
         noiseFloor (snd (Process Fin u [0x00, 0x40] now)) = Fin (5 / 1000)"
proof -
  have eff: "effectiveThreshold Fin (u\<lparr>lastRMS := Fin (1 / 2)\<rparr>) (Fin (1 / 2)) =
      (u\<lparr>lastRMS := Fin (1 / 2)\<rparr>, Fin (1 / 50))"
    using assms by (simp add: effectiveThreshold_def f_gt_def Let_def)
  have loud: "exceeds Fin u [0x00, 0x40]"
    by (simp add: exceeds_def calculateRMS_half_scale eff f_gt_def)
  have "noiseFloor (snd (Process Fin u [0x00, 0x40] now)) = noiseFloor u"
    by (simp add: Process_def calculateRMS_half_scale eff Let_def)
  with loud assms(3) show ?thesis
    by simp
qed

theorem C6_speech_start_after_confirmation_witness:
  "\<not> isSpeaking (NewRMSVAD (Fin (1 / 50)) 500000000) \<and>
   consecutiveFrames (NewRMSVAD (Fin (1 / 50)) 500000000) = 0 \<and>
   minConfirmed (NewRMSVAD (Fin (1 / 50)) 500000000) = 7 \<and>
   every_frame (exceeds Fin) Fin (NewRMSVAD (Fin (1 / 50)) 500000000)
     [([0x00, 0x40], 62135596800010000000), ([0x00, 0x40], 62135596800020000000),
      ([0x00, 0x40], 62135596800030000000), ([0x00, 0x40], 62135596800040000000),
      ([0x00, 0x40], 62135596800050000000), ([0x00, 0x40], 62135596800060000000),
      ([0x00, 0x40], 62135596800070000000), ([0x00, 0x40], 62135596800080000000)] \<and>
   fst (ProcessFrames Fin (NewRMSVAD (Fin (1 / 50)) 500000000)
     [([0x00, 0x40], 62135596800010000000), ([0x00, 0x40], 62135596800020000000),
      ([0x00, 0x40], 62135596800030000000), ([0x00, 0x40], 62135596800040000000),
      ([0x00, 0x40], 62135596800050000000), ([0x00, 0x40], 62135596800060000000),
      ([0x00, 0x40], 62135596800070000000), ([0x00, 0x40], 62135596800080000000)]) =
     [None, None, None, None, None, None,
      Some \<lparr>Type = VADSpeechStart, Timestamp = 70\<rparr>, None] \<and>
   every_frame (\<lambda>u c. \<not> exceeds Fin u c) Fin (NewRMSVAD (Fin (1 / 50)) 500000000)
     [([], 62135596800010000000), ([], 62135596800020000000)] \<and>
   fst (ProcessFrames Fin (NewRMSVAD (Fin (1 / 50)) 500000000)
     [([], 62135596800010000000), ([], 62135596800020000000)]) =
     [Some \<lparr>Type = VADSilence, Timestamp = 10\<rparr>, Some \<lparr>Type = VADSilence, Timestamp = 20\<rparr>]"
proof -
  let ?v = "NewRMSVAD (Fin (1 / 50)) 500000000"
  let ?loud = "[([0x00, 0x40], 62135596800010000000), ([0x00, 0x40], 62135596800020000000),
      ([0x00, 0x40], 62135596800030000000), ([0x00, 0x40], 62135596800040000000),
      ([0x00, 0x40], 62135596800050000000), ([0x00, 0x40], 62135596800060000000),
      ([0x00, 0x40], 62135596800070000000), ([0x00, 0x40], 62135596800080000000)]
      :: (byte list \<times> Time) list"
  let ?quiet = "[([], 62135596800010000000), ([], 62135596800020000000)] :: (byte list \<times> Time) list"
  have idle: "\<not> isSpeaking ?v"
    by (simp add: NewRMSVAD_def)
  have zero: "consecutiveFrames ?v = 0"
    by (simp add: NewRMSVAD_def)
  have seven: "minConfirmed ?v = 7"
    by (simp add: NewRMSVAD_def)
  have loud: "every_frame (exceeds Fin) Fin ?v ?loud"
  proof (rule every_frame_invariant
      [where I = "\<lambda>u. adaptiveMode u \<and> threshold u = Fin (1 / 50) \<and> noiseFloor u = Fin (5 / 1000)"])
    show "adaptiveMode ?v \<and> threshold ?v = Fin (1 / 50) \<and> noiseFloor ?v = Fin (5 / 1000)"
      by (simp add: NewRMSVAD_def)
  next
    fix u :: RMSVAD and chunk :: "byte list" and now :: Time
    assume inv: "adaptiveMode u \<and> threshold u = Fin (1 / 50) \<and> noiseFloor u = Fin (5 / 1000)"
      and frame: "(chunk, now) \<in> set ?loud"
    from frame have chunk: "chunk = [0x00, 0x40]"
      by auto
    from inv half_scale_frame_is_loud [of u now] Process_keeps_settings [of Fin u chunk now]
    show "exceeds Fin u chunk \<and>
        (adaptiveMode (snd (Process Fin u chunk now)) \<and>
         threshold (snd (Process Fin u chunk now)) = Fin (1 / 50) \<and>
         noiseFloor (snd (Process Fin u chunk now)) = Fin (5 / 1000))"
      unfolding chunk by simp
  qed
  have quiet: "every_frame (\<lambda>u c. \<not> exceeds Fin u c) Fin ?v ?quiet"
    by (simp add: exceeds_def Process_def effectiveThreshold_def calculateRMS_empty
        NewRMSVAD_def f_gt_def f_sub_def Let_def)
  have enough: "consecutiveFrames ?v = 0 \<and> 1 \<le> minConfirmed ?v \<and>
      every_frame (exceeds Fin) Fin ?v ?loud \<and> nat (minConfirmed ?v) \<le> length ?loud"
    using zero seven loud by simp
  from C6_speech_start_after_confirmation [OF idle, of Fin ?quiet ?loud] quiet enough
  have silence: "fst (ProcessFrames Fin ?v ?quiet) =
      map (\<lambda>frame. Some \<lparr>Type = VADSilence, Timestamp = UnixMilli (snd frame)\<rparr>) ?quiet"
    and start: "fst (ProcessFrames Fin ?v ?loud) =
      replicate (nat (minConfirmed ?v) - 1) None @
      [Some \<lparr>Type = VADSpeechStart,
             Timestamp = UnixMilli (snd (?loud ! (nat (minConfirmed ?v) - 1)))\<rparr>] @
      replicate (length ?loud - nat (minConfirmed ?v)) None"
    by blast+
  from silence have silence': "fst (ProcessFrames Fin ?v ?quiet) =
      [Some \<lparr>Type = VADSilence, Timestamp = 10\<rparr>, Some \<lparr>Type = VADSilence, Timestamp = 20\<rparr>]"
    by (simp add: UnixMilli_def)
  have six: "nat (minConfirmed ?v) - 1 = Suc (Suc (Suc (Suc (Suc (Suc 0)))))"
      "length ?loud - nat (minConfirmed ?v) = Suc 0"
    using seven by simp_all
  from start have start': "fst (ProcessFrames Fin ?v ?loud) =
      [None, None, None, None, None, None,
       Some \<lparr>Type = VADSpeechStart, Timestamp = 70\<rparr>, None]"
    unfolding six by (simp add: UnixMilli_def)
  from idle zero seven loud start' quiet silence' show ?thesis
    by blast
qed

end
